theory Spec2Isabelle
  imports Complex_Main
begin

section \<open>Tensile test analyzer: the \<open>analyze\<close> endpoint of app.py\<close>

text \<open>
  The endpoint reads two numeric columns (displacement, load) and two specimen
  parameters (area, gauge length) and derives stress, strain, the secant and the
  tangent modulus, a scalar modulus \<open>E\<close>, the yield point by the 0.2% offset
  method and the fracture point.

  Numbers. The program computes in IEEE doubles. Outside the section on lines 72,
  73 and 143, which rounds to binary64, rounding, overflow and underflow are not
  modelled: a finite value is a \<open>real\<close> and arithmetic on finite values is exact.
  What is modelled is where the program leaves the finite values: numpy
  divides by zero without raising, which gives an infinity or a NaN, and these
  values then flow through comparisons, maxima and means. The uploaded columns hold
  finite numbers (or cells that are not numbers), and area and gauge length are
  positive when the computation starts, so stress, strain and the secant modulus
  are finite; the first place a non-finite value can appear is \<open>np.gradient\<close>.
\<close>

subsection \<open>Double values without rounding\<close>

datatype fl = Fin real | PInf | NInf | NaN

fun fpos :: "fl \<Rightarrow> bool" where
  "fpos (Fin a) = (0 < a)"
| "fpos PInf = True"
| "fpos NInf = False"
| "fpos NaN = False"

definition signed_inf :: "bool \<Rightarrow> fl" where
  "signed_inf pos = (if pos then PInf else NInf)"

fun fneg :: "fl \<Rightarrow> fl" where
  "fneg (Fin a) = Fin (- a)"
| "fneg PInf = NInf"
| "fneg NInf = PInf"
| "fneg NaN = NaN"

fun fadd :: "fl \<Rightarrow> fl \<Rightarrow> fl" where
  "fadd (Fin a) (Fin b) = Fin (a + b)"
| "fadd NaN y = NaN"
| "fadd x NaN = NaN"
| "fadd PInf NInf = NaN"
| "fadd NInf PInf = NaN"
| "fadd PInf y = PInf"
| "fadd x PInf = PInf"
| "fadd NInf y = NInf"
| "fadd x NInf = NInf"

definition fsub :: "fl \<Rightarrow> fl \<Rightarrow> fl" where
  "fsub x y = fadd x (fneg y)"

fun fmul :: "fl \<Rightarrow> fl \<Rightarrow> fl" where
  "fmul (Fin a) (Fin b) = Fin (a * b)"
| "fmul NaN y = NaN"
| "fmul x NaN = NaN"
| "fmul x y = (if x = Fin 0 \<or> y = Fin 0 then NaN else signed_inf (fpos x = fpos y))"

text \<open>Comparisons: every comparison with a NaN is false.\<close>

fun flt :: "fl \<Rightarrow> fl \<Rightarrow> bool" where
  "flt (Fin a) (Fin b) = (a < b)"
| "flt NaN y = False"
| "flt x NaN = False"
| "flt NInf y = (y \<noteq> NInf)"
| "flt x PInf = (x \<noteq> PInf)"
| "flt x y = False"

fun fle :: "fl \<Rightarrow> fl \<Rightarrow> bool" where
  "fle (Fin a) (Fin b) = (a \<le> b)"
| "fle NaN y = False"
| "fle x NaN = False"
| "fle NInf y = True"
| "fle x PInf = True"
| "fle x y = False"

definition fge :: "fl \<Rightarrow> fl \<Rightarrow> bool" where
  "fge x y = fle y x"

text \<open>
  Division of one finite value by another. A difference of two finite doubles that
  is zero is the positive zero, so a zero divisor here is \<open>+0.0\<close>: the quotient is
  an infinity with the sign of the dividend, or NaN for \<open>0 / 0\<close>.
\<close>

definition rdiv :: "real \<Rightarrow> real \<Rightarrow> fl" where
  "rdiv x y =
     (if y \<noteq> 0 then Fin (x / y)
      else if x = 0 then NaN
      else signed_inf (0 < x))"

text \<open>
  \<open>x / (d1 * d2)\<close> for finite values whose zeros are positive zeros: the product
  of a zero and a negative factor is \<open>-0.0\<close>, which turns the sign of the
  infinity around.
\<close>

definition rdiv_prod :: "real \<Rightarrow> real \<Rightarrow> real \<Rightarrow> fl" where
  "rdiv_prod x d1 d2 =
     (if d1 * d2 \<noteq> 0 then Fin (x / (d1 * d2))
      else if x = 0 then NaN
      else signed_inf ((0 < x) = ((d1 < 0) = (d2 < 0))))"

text \<open>Division of a float by a count, as \<open>np.mean\<close> does: \<open>0.0 / 0\<close> is NaN.\<close>

fun fdiv_count :: "fl \<Rightarrow> nat \<Rightarrow> fl" where
  "fdiv_count (Fin s) n = rdiv s (real n)"
| "fdiv_count PInf n = PInf"
| "fdiv_count NInf n = NInf"
| "fdiv_count NaN n = NaN"

subsection \<open>Exceptions and the numpy functions the program calls\<close>

datatype py_exception = ValueError | IndexError | ReadError

text \<open>\<open>np.max\<close> and \<open>np.argmax\<close> of a float array that holds no NaN; both raise
  ValueError on an empty array. \<open>np.argmax\<close> returns the first index of the maximum.\<close>

fun np_max :: "real list \<Rightarrow> py_exception + real" where
  "np_max [] = Inl ValueError"
| "np_max (x # xs) = Inr (fold max xs x)"

fun argmax_from :: "nat \<Rightarrow> real \<Rightarrow> nat \<Rightarrow> real list \<Rightarrow> nat" where
  "argmax_from best bv i [] = best"
| "argmax_from best bv i (x # xs) =
     (if bv < x then argmax_from i x (Suc i) xs else argmax_from best bv (Suc i) xs)"

fun np_argmax :: "real list \<Rightarrow> py_exception + nat" where
  "np_argmax [] = Inl ValueError"
| "np_argmax (x # xs) = Inr (argmax_from 0 x 1 xs)"

text \<open>On arrays that may hold non-finite values: \<open>np.max\<close> returns NaN when a NaN is
  present, and \<open>np.argmin\<close> returns the index of the first NaN when one is present,
  otherwise the first index of the minimum.\<close>

definition fmax :: "fl \<Rightarrow> fl \<Rightarrow> fl" where
  "fmax x y = (if x = NaN \<or> y = NaN then NaN else if flt x y then y else x)"

fun np_max_fl :: "fl list \<Rightarrow> py_exception + fl" where
  "np_max_fl [] = Inl ValueError"
| "np_max_fl (x # xs) = Inr (fold (\<lambda>y acc. fmax acc y) xs x)"

fun argmin_from :: "nat \<Rightarrow> fl \<Rightarrow> nat \<Rightarrow> fl list \<Rightarrow> nat" where
  "argmin_from best bv i [] = best"
| "argmin_from best bv i (x # xs) =
     (if bv = NaN then best
      else if x = NaN \<or> flt x bv then argmin_from i x (Suc i) xs
      else argmin_from best bv (Suc i) xs)"

fun np_argmin_fl :: "fl list \<Rightarrow> py_exception + nat" where
  "np_argmin_fl [] = Inl ValueError"
| "np_argmin_fl (x # xs) = Inr (argmin_from 0 x 1 xs)"

text \<open>\<open>np.diff(x)\<close> is \<open>x[1:] - x[:-1]\<close>.\<close>

definition np_diff :: "real list \<Rightarrow> real list" where
  "np_diff x = map2 (\<lambda>hi lo. hi - lo) (tl x) (butlast x)"

text \<open>
  \<open>np.gradient(f, x)\<close> for one-dimensional \<open>f\<close> and coordinates \<open>x\<close>, with the
  default \<open>edge_order = 1\<close>, in the order numpy (1.13 and later) runs it:
  \<^item> a length mismatch raises ValueError;
  \<^item> \<open>diffx = np.diff(x)\<close>, and the test \<open>(diffx == diffx[0]).all()\<close> reads
    \<open>diffx[0]\<close>, which raises IndexError when \<open>x\<close> has fewer than two entries;
  \<^item> fewer than two samples raise ValueError (not reached after the step before);
  \<^item> constant spacing \<open>dx\<close>: interior \<open>(f[2:] - f[:-2]) / (2. * dx)\<close>; otherwise,
    with \<open>dx1 = diffx[:-1]\<close> and \<open>dx2 = diffx[1:]\<close>, interior
    \<open>a * f[:-2] + b * f[1:-1] + c * f[2:]\<close> where \<open>a = -(dx2)/(dx1 * (dx1 + dx2))\<close>,
    \<open>b = (dx2 - dx1) / (dx1 * dx2)\<close>, \<open>c = dx1 / (dx2 * (dx1 + dx2))\<close>;
  \<^item> the edges are the one-sided differences \<open>(f[1] - f[0]) / dx_0\<close> and
    \<open>(f[-1] - f[-2]) / dx_n\<close>.
  No division raises: a zero spacing gives infinities and NaNs.
\<close>

definition interior_uniform :: "real \<Rightarrow> real list \<Rightarrow> fl list" where
  "interior_uniform dx f =
     map2 (\<lambda>hi lo. rdiv (hi - lo) (2 * dx)) (drop 2 f) (take (length f - 2) f)"

definition interior_point :: "real \<Rightarrow> real \<Rightarrow> real \<Rightarrow> real \<Rightarrow> real \<Rightarrow> fl" where
  "interior_point dx1 dx2 f0 f1 f2 =
     (let a = rdiv_prod (- dx2) dx1 (dx1 + dx2);
          b = rdiv_prod (dx2 - dx1) dx1 dx2;
          c = rdiv_prod dx1 dx2 (dx1 + dx2)
      in fadd (fadd (fmul a (Fin f0)) (fmul b (Fin f1))) (fmul c (Fin f2)))"

definition interior_nonuniform :: "real list \<Rightarrow> real list \<Rightarrow> fl list" where
  "interior_nonuniform diffx f =
     map (\<lambda>(dx1, dx2, f0, f1, f2). interior_point dx1 dx2 f0 f1 f2)
       (zip (butlast diffx) (zip (tl diffx)
         (zip (take (length f - 2) f) (zip (butlast (tl f)) (drop 2 f)))))"

definition np_gradient :: "real list \<Rightarrow> real list \<Rightarrow> py_exception + fl list" where
  "np_gradient f x =
     (if length x \<noteq> length f then Inl ValueError
      else let diffx = np_diff x in
        if diffx = [] then Inl IndexError
        else if length f < 2 then Inl ValueError
        else let uniform = list_all (\<lambda>d. d = hd diffx) diffx;
                 interior = (if uniform then interior_uniform (hd diffx) f
                             else interior_nonuniform diffx f);
                 dx_0 = hd diffx;
                 dx_n = last diffx;
                 n = length f
             in Inr (rdiv (f ! 1 - f ! 0) dx_0 # interior
                     @ [rdiv (f ! (n - 1) - f ! (n - 2)) dx_n]))"

text \<open>
  \<open>np.percentile(a, q)\<close> with the default linear interpolation (numpy 1.22 and
  later): the virtual index is \<open>(n - 1) * (q / 100)\<close>, the two neighbours in the
  sorted array are interpolated by \<open>_lerp\<close>, and a NaN anywhere in the array makes
  the result NaN. When the virtual index reaches \<open>n - 1\<close> both neighbours are the
  last element (index -1), and the weight is computed from that index. The program
  calls it only on a non-empty array (behind \<open>np.any\<close>).
\<close>

fun fl_insort :: "fl \<Rightarrow> fl list \<Rightarrow> fl list" where
  "fl_insort x [] = [x]"
| "fl_insort x (y # ys) = (if flt y x then y # fl_insort x ys else x # y # ys)"

definition fl_sort :: "fl list \<Rightarrow> fl list" where
  "fl_sort xs = foldr fl_insort xs []"

definition lerp :: "fl \<Rightarrow> fl \<Rightarrow> real \<Rightarrow> fl" where
  "lerp a b t =
     (let diff_b_a = fsub b a
      in if t \<ge> 0.5 then fsub b (fmul diff_b_a (Fin (1 - t)))
         else fadd a (fmul diff_b_a (Fin t)))"

definition np_percentile :: "fl list \<Rightarrow> real \<Rightarrow> fl" where
  "np_percentile a q =
     (let n = length a;
          virtual_index = (real n - 1) * (q / 100);
          above = (virtual_index \<ge> real n - 1);
          previous_index = (if above then n - 1 else nat \<lfloor>virtual_index\<rfloor>);
          next_index = (if above then n - 1 else previous_index + 1);
          gamma = (if above then virtual_index + 1
                   else virtual_index - real_of_int \<lfloor>virtual_index\<rfloor>);
          arr = fl_sort a
      in if a = [] \<or> list_ex (\<lambda>v. v = NaN) a then NaN
         else lerp (arr ! previous_index) (arr ! next_index) gamma)"

text \<open>\<open>np.mean\<close>: the sum divided by the count; the mean of an empty array is NaN.\<close>

definition np_mean :: "fl list \<Rightarrow> fl" where
  "np_mean xs = fdiv_count (foldl fadd (Fin 0) xs) (length xs)"

text \<open>Indexing a numpy array with a Python integer: a negative index counts from the end.\<close>

definition py_index :: "'a list \<Rightarrow> int \<Rightarrow> py_exception + 'a" where
  "py_index xs i =
     (if 0 \<le> i \<and> i < int (length xs) then Inr (xs ! nat i)
      else if i < 0 \<and> - int (length xs) \<le> i then Inr (xs ! nat (int (length xs) + i))
      else Inl IndexError)"

text \<open>Boolean-mask indexing \<open>a[mask]\<close>.\<close>

definition bool_index :: "'a list \<Rightarrow> bool list \<Rightarrow> 'a list" where
  "bool_index xs msk = map fst (filter snd (zip xs msk))"

text \<open>Python's \<open>round(x, d)\<close> on an exact value: to the nearest multiple of \<open>10^-d\<close>, a tie to
  the even one.\<close>

definition py_round :: "real \<Rightarrow> nat \<Rightarrow> real" where
  "py_round x d =
     (let y = x * 10 ^ d; f = \<lfloor>y\<rfloor>; r = y - real_of_int f
      in (if r < 1 / 2 then real_of_int f
          else if 1 / 2 < r then real_of_int (f + 1)
          else if even f then real_of_int f else real_of_int (f + 1)) / 10 ^ d)"

subsection \<open>The stages of the analysis\<close>

text \<open>A raised exception leaves the \<open>try\<close> body at once: sequencing on \<open>py_exception + 'a\<close>.\<close>

definition exc_bind :: "py_exception + 'a \<Rightarrow> ('a \<Rightarrow> py_exception + 'b) \<Rightarrow> py_exception + 'b" where
  "exc_bind m k = (case m of Inl e \<Rightarrow> Inl e | Inr v \<Rightarrow> k v)"

text \<open>Lines 62 to 68: \<open>pd.to_numeric(..., errors="coerce").dropna()\<close> keeps the numeric
  cells (a cell that is not a number is \<open>None\<close>), and both columns are cut to the
  shorter length.\<close>

definition dropna :: "real option list \<Rightarrow> real list" where
  "dropna cells = List.map_filter id cells"

definition align :: "real option list \<Rightarrow> real option list \<Rightarrow> real list \<times> real list" where
  "align disp_cells load_cells =
     (let displacement = dropna disp_cells;
          load = dropna load_cells;
          min_len = min (length displacement) (length load)
      in (take min_len displacement, take min_len load))"

text \<open>Lines 72 to 77: stress in MPa and strain.\<close>

definition stress_of :: "real list \<Rightarrow> real \<Rightarrow> real list" where
  "stress_of load area = map (\<lambda>stress. stress / 1000000) (map (\<lambda>l. l / area) load)"

definition strain_of :: "real list \<Rightarrow> real \<Rightarrow> real list" where
  "strain_of displacement gauge_length = map (\<lambda>d. (d / 1000) / gauge_length) displacement"

text \<open>Lines 81 to 86: the secant modulus \<open>np.where(strain != 0, stress_mpa / strain, 0.0)\<close>
  and its angle \<open>np.degrees(np.arctan(...))\<close>.\<close>

definition youngs_modulus :: "real list \<Rightarrow> real list \<Rightarrow> real list" where
  "youngs_modulus stress_mpa strain =
     map2 (\<lambda>e s. if e \<noteq> 0 then s / e else 0) strain stress_mpa"

definition degrees_arctan :: "real \<Rightarrow> real" where
  "degrees_arctan y = arctan y * 180 / pi"

text \<open>Lines 89 to 92: the tangent modulus; a ValueError of \<open>np.gradient\<close> is replaced by
  zeros, any other exception propagates.\<close>

definition tangent_modulus :: "real list \<Rightarrow> real list \<Rightarrow> py_exception + fl list" where
  "tangent_modulus stress_mpa strain =
     (case np_gradient stress_mpa strain of
        Inl ValueError \<Rightarrow> Inr (map (\<lambda>_. Fin 0) stress_mpa)
      | Inl e \<Rightarrow> Inl e
      | Inr g \<Rightarrow> Inr g)"

text \<open>Lines 97 to 110: the elastic region and the scalar modulus \<open>E\<close>.\<close>

definition elastic_mask :: "real list \<Rightarrow> real list \<Rightarrow> real \<Rightarrow> real \<Rightarrow> bool list" where
  "elastic_mask stress_mpa strain max_stress_val max_strain_val =
     map2 (\<lambda>s e. s > 0.05 * max_stress_val \<and> e < 0.5 * max_strain_val) stress_mpa strain"

definition fallback_window :: "nat \<Rightarrow> nat" where
  "fallback_window n = max 5 (nat \<lfloor>real n * 0.2\<rfloor>)"

definition scalar_modulus :: "fl list \<Rightarrow> bool list \<Rightarrow> nat \<Rightarrow> py_exception + fl" where
  "scalar_modulus tangent_modulus_arr msk n =
     (if list_ex id msk then
        (let valid_slopes = bool_index tangent_modulus_arr msk;
             threshold = np_percentile valid_slopes 90
         in Inr (np_mean (filter (\<lambda>v. fge v threshold) valid_slopes)))
      else if n > 5 then np_max_fl (take (fallback_window n) tangent_modulus_arr)
      else Inr (Fin 1))"

text \<open>Lines 113 to 120: the offset line and the scan for the first crossing.
  \<open>yield_scan i\<close> runs the loop from index \<open>i\<close> on the rest of the three arrays.\<close>

definition offset_stress_of :: "fl \<Rightarrow> real list \<Rightarrow> fl list" where
  "offset_stress_of E strain = map (\<lambda>e. fmul E (Fin (e - 0.002))) strain"

fun yield_scan :: "nat \<Rightarrow> real list \<Rightarrow> real list \<Rightarrow> fl list \<Rightarrow> int option" where
  "yield_scan i (e # strain) (s # stress_mpa) (off # offset_stress) =
     (if e > 0.002 \<and> flt (Fin s) off then Some (int i - 1)
      else yield_scan (Suc i) strain stress_mpa offset_stress)"
| "yield_scan i _ _ _ = None"

text \<open>Lines 125 to 129 and 166 to 170: a point record read at an index.\<close>

record point =
  pt_strain :: real
  pt_stress :: real
  pt_slope_angle :: real

definition point_at :: "real list \<Rightarrow> real list \<Rightarrow> real list \<Rightarrow> int \<Rightarrow> py_exception + point" where
  "point_at strain stress_mpa slope_angles i =
     exc_bind (py_index strain i) (\<lambda>e.
     exc_bind (py_index stress_mpa i) (\<lambda>s.
     exc_bind (py_index slope_angles i) (\<lambda>a.
       Inr \<lparr>pt_strain = e, pt_stress = s, pt_slope_angle = a\<rparr>)))"

text \<open>Lines 143 to 164: the peak and the fracture index.\<close>

definition fracture_search :: "real list \<Rightarrow> fl list \<Rightarrow> fl \<Rightarrow> py_exception + int \<times> int" where
  "fracture_search stress_mpa tangent_modulus_arr E =
     exc_bind (np_argmax stress_mpa) (\<lambda>peak_idx.
       let post_peak_tangent = drop peak_idx tangent_modulus_arr in
       if length post_peak_tangent > 1 then
         exc_bind (np_argmin_fl post_peak_tangent) (\<lambda>min_slope_idx_local.
           let min_slope_val = post_peak_tangent ! min_slope_idx_local;
               min_slope_idx = int peak_idx + int min_slope_idx_local
           in if flt min_slope_val (fmul (Fin (- 0.05)) E)
              then Inr (int peak_idx, max (int peak_idx) (min_slope_idx - 1))
              else Inr (int peak_idx, int peak_idx))
       else Inr (int peak_idx, int peak_idx))"

subsection \<open>The endpoint\<close>

text \<open>
  The response body of a successful call (lines 178 to 199). The fields \<open>out_...\<close> are
  the keys of the JSON object; the fields \<open>loc_...\<close> are locals of the function that
  the body does not serialise, kept here because the specification speaks about them.
\<close>

record metrics =
  max_stress_mpa :: real
  yield_strength_mpa :: real
  max_strain :: real
  max_load_n :: real

record analysis =
  out_displacement :: "real list"
  out_load :: "real list"
  out_stress :: "real list"
  out_strain :: "real list"
  out_youngs_modulus :: "real list"
  out_slope_angles :: "real list"
  out_yield_point :: "point option"
  out_yield_index :: "int option"
  out_fracture_point :: point
  out_offset_line :: "(real \<times> real) list"
  out_metrics :: metrics
  out_columns_used :: "string \<times> string"
  loc_tangent_modulus_arr :: "fl list"
  loc_E :: fl
  loc_peak_idx :: int
  loc_fracture_idx :: int

text \<open>Lines 62 to 176, the part of the \<open>try\<close> body that computes.\<close>

definition run_analysis ::
  "string \<Rightarrow> string \<Rightarrow> real option list \<Rightarrow> real option list \<Rightarrow> real \<Rightarrow> real
     \<Rightarrow> py_exception + analysis" where
  "run_analysis disp_col load_col disp_cells load_cells area gauge_length =
     (let (displacement, load) = align disp_cells load_cells;
          stress_mpa = stress_of load area;
          strain = strain_of displacement gauge_length;
          youngs_modulus_arr = youngs_modulus stress_mpa strain;
          slope_angles = map degrees_arctan youngs_modulus_arr
      in
      exc_bind (tangent_modulus stress_mpa strain) (\<lambda>tangent_modulus_arr.
      exc_bind (np_max stress_mpa) (\<lambda>max_stress_val.
      exc_bind (np_max strain) (\<lambda>max_strain_val.
      exc_bind (scalar_modulus tangent_modulus_arr
                  (elastic_mask stress_mpa strain max_stress_val max_strain_val)
                  (length strain)) (\<lambda>E.
      let yield_index = yield_scan 0 strain stress_mpa (offset_stress_of E strain) in
      exc_bind (case yield_index of
                  None \<Rightarrow> Inr None
                | Some i \<Rightarrow> exc_bind (point_at strain stress_mpa slope_angles i)
                             (\<lambda>p. Inr (Some p))) (\<lambda>yield_point.
      let offset_line = (case yield_point of
                           Some p \<Rightarrow> [(0.002, 0), (pt_strain p, pt_stress p)]
                         | None \<Rightarrow> []) in
      exc_bind (fracture_search stress_mpa tangent_modulus_arr E) (\<lambda>(peak_idx, fracture_idx).
      exc_bind (point_at strain stress_mpa slope_angles fracture_idx) (\<lambda>fracture_point.
      exc_bind (np_max load) (\<lambda>max_load.
      let yield_strength = (case yield_point of Some p \<Rightarrow> pt_stress p | None \<Rightarrow> 0) in
      Inr \<lparr> out_displacement = displacement,
            out_load = load,
            out_stress = stress_mpa,
            out_strain = strain,
            out_youngs_modulus = youngs_modulus_arr,
            out_slope_angles = slope_angles,
            out_yield_point = yield_point,
            out_yield_index = yield_index,
            out_fracture_point = fracture_point,
            out_offset_line = offset_line,
            out_metrics = \<lparr> max_stress_mpa = py_round max_stress_val 2,
                            yield_strength_mpa = py_round yield_strength 2,
                            max_strain = py_round max_strain_val 6,
                            max_load_n = py_round max_load 2 \<rparr>,
            out_columns_used = (disp_col, load_col),
            loc_tangent_modulus_arr = tangent_modulus_arr,
            loc_E = E,
            loc_peak_idx = peak_idx,
            loc_fracture_idx = fracture_idx \<rparr>)))))))))"

text \<open>
  The request. Reading the upload, parsing the CSV and detecting the two columns by
  their names (lines 36 to 60) are taken as done: an upload either cannot be read
  (an exception), has no two such columns, or gives the two column names and their
  cells. area and gauge length are the two form fields already converted by \<open>float\<close>.

  The responses: the three rejections written in the function, each with status 400,
  the handler of line 201 that turns any exception of the body into status 500, and
  the result with status 200.
\<close>

datatype upload =
    Unreadable
  | Undetected
  | Detected string string "real option list" "real option list"

datatype error_message =
    No_file_uploaded
  | Area_and_gauge_length_must_be_positive
  | Could_not_detect_columns
  | Exception_text py_exception

datatype response = Error nat error_message | Ok analysis

definition analyze :: "upload option \<Rightarrow> real \<Rightarrow> real \<Rightarrow> response" where
  "analyze file area gauge_length =
     (case file of
        None \<Rightarrow> Error 400 No_file_uploaded
      | Some content \<Rightarrow>
          if area \<le> 0 \<or> gauge_length \<le> 0
          then Error 400 Area_and_gauge_length_must_be_positive
          else (case content of
                  Unreadable \<Rightarrow> Error 500 (Exception_text ReadError)
                | Undetected \<Rightarrow> Error 400 Could_not_detect_columns
                | Detected disp_col load_col disp_cells load_cells \<Rightarrow>
                    (case run_analysis disp_col load_col disp_cells load_cells
                            area gauge_length of
                       Inl e \<Rightarrow> Error 500 (Exception_text e)
                     | Inr result \<Rightarrow> Ok result)))"

subsection \<open>Notions of the specification\<close>

text \<open>
  A failure the function itself reports (one of its three rejections), as opposed to
  an exception of the body that the handler of line 201 turns into a response.
\<close>

definition explicit_rejection :: "response \<Rightarrow> bool" where
  "explicit_rejection resp =
     (case resp of
        Error code msg \<Rightarrow> (case msg of Exception_text e \<Rightarrow> False | _ \<Rightarrow> True)
      | Ok result \<Rightarrow> False)"

text \<open>
  The elastic-candidate region of the specification: the indices where the stress is
  above 5% of the maximum stress and the strain below 50% of the maximum strain.
\<close>

definition elastic_region :: "real list \<Rightarrow> real list \<Rightarrow> nat list" where
  "elastic_region stress strain =
     filter (\<lambda>i. stress ! i > 0.05 * Max (set stress) \<and> strain ! i < 0.5 * Max (set strain))
       [0..<length stress]"

text \<open>The value of a finite double.\<close>

fun fl_val :: "fl \<Rightarrow> real" where
  "fl_val (Fin a) = a"
| "fl_val PInf = 0"
| "fl_val NInf = 0"
| "fl_val NaN = 0"

fun is_fin :: "fl \<Rightarrow> bool" where
  "is_fin (Fin a) = True"
| "is_fin PInf = False"
| "is_fin NInf = False"
| "is_fin NaN = False"

subsection \<open>Lines 72, 73 and 143 in binary64\<close>

text \<open>
  The stress of lines 72 and 73 is two divisions of doubles, each rounded to the
  nearest double, ties to even; a quotient of magnitude \<open>2^1024\<close> or more after
  rounding is an infinity, and a quotient below the smallest subnormal is zero.
  A double of binade \<open>e\<close> (at least \<open>-1022\<close>, where the subnormals start) is an integer
  multiple of \<open>2^(e - 52)\<close>. The load values and the area are the reals that the
  doubles of the program denote; the sign of a zero is not kept, since no comparison
  sees it.
\<close>

definition round_half_even :: "real \<Rightarrow> int" where
  "round_half_even t =
     (let f = \<lfloor>t\<rfloor>; r = t - real_of_int f
      in if r < 1 / 2 then f
         else if 1 / 2 < r then f + 1
         else if even f then f else f + 1)"

text \<open>The binade of a value and the spacing of the doubles in it.\<close>

definition binade :: "real \<Rightarrow> int" where
  "binade x = max \<lfloor>log 2 \<bar>x\<bar>\<rfloor> (- 1022)"

definition ulp :: "real \<Rightarrow> real" where
  "ulp x = 2 powr real_of_int (binade x - 52)"

text \<open>Rounding of a real to the nearest double.\<close>

definition rounded_magnitude :: "real \<Rightarrow> real" where
  "rounded_magnitude x = real_of_int (round_half_even (\<bar>x\<bar> / ulp x)) * ulp x"

definition double_round :: "real \<Rightarrow> fl" where
  "double_round x =
     (if x = 0 then Fin 0
      else if 2 ^ 1024 \<le> rounded_magnitude x then signed_inf (0 < x)
      else Fin (if 0 < x then rounded_magnitude x else - rounded_magnitude x))"

text \<open>Division of a double by a positive finite double, as the area (after the check of
  line 29) and the constant \<open>1e6\<close> are.\<close>

fun double_div :: "fl \<Rightarrow> real \<Rightarrow> fl" where
  "double_div (Fin a) d = double_round (a / d)"
| "double_div PInf d = PInf"
| "double_div NInf d = NInf"
| "double_div NaN d = NaN"

text \<open>Lines 72 and 73: \<open>stress = load / area\<close>, then \<open>stress_mpa = stress / 1e6\<close>.\<close>

definition stress_mpa_double :: "real list \<Rightarrow> real \<Rightarrow> fl list" where
  "stress_mpa_double load area =
     map (\<lambda>stress. double_div stress 1000000) (map (\<lambda>l. double_div (Fin l) area) load)"

text \<open>Line 143: \<open>np.argmax\<close> on doubles, the first NaN if there is one, the first maximum
  otherwise.\<close>

fun argmax_fl_from :: "nat \<Rightarrow> fl \<Rightarrow> nat \<Rightarrow> fl list \<Rightarrow> nat" where
  "argmax_fl_from best bv i [] = best"
| "argmax_fl_from best bv i (x # xs) =
     (if bv = NaN then best
      else if x = NaN \<or> flt bv x then argmax_fl_from i x (Suc i) xs
      else argmax_fl_from best bv (Suc i) xs)"

fun np_argmax_fl :: "fl list \<Rightarrow> py_exception + nat" where
  "np_argmax_fl [] = Inl ValueError"
| "np_argmax_fl (x # xs) = Inr (argmax_fl_from 0 x 1 xs)"

section \<open>Properties\<close>

subsection \<open>Reading a successful run\<close>

lemma exc_bind_Inr_iff: "exc_bind m k = Inr r \<longleftrightarrow> (\<exists>v. m = Inr v \<and> k v = Inr r)"
  by (cases m) (simp_all add: exc_bind_def)

lemma run_analysis_Inr:
  assumes "run_analysis dc lc dcells lcells area gl = Inr r"
  shows "\<exists>maxs maxe.
     out_displacement r = fst (align dcells lcells)
   \<and> out_load r = snd (align dcells lcells)
   \<and> out_stress r = stress_of (out_load r) area
   \<and> out_strain r = strain_of (out_displacement r) gl
   \<and> out_youngs_modulus r = youngs_modulus (out_stress r) (out_strain r)
   \<and> out_slope_angles r = map degrees_arctan (out_youngs_modulus r)
   \<and> tangent_modulus (out_stress r) (out_strain r) = Inr (loc_tangent_modulus_arr r)
   \<and> np_max (out_stress r) = Inr maxs
   \<and> np_max (out_strain r) = Inr maxe
   \<and> scalar_modulus (loc_tangent_modulus_arr r) (elastic_mask (out_stress r) (out_strain r) maxs maxe) (length (out_strain r)) = Inr (loc_E r)
   \<and> out_yield_index r = yield_scan 0 (out_strain r) (out_stress r) (offset_stress_of (loc_E r) (out_strain r))
   \<and> (case out_yield_index r of None \<Rightarrow> out_yield_point r = None
        | Some i \<Rightarrow> point_at (out_strain r) (out_stress r) (out_slope_angles r) i = Inr (the (out_yield_point r)) \<and> out_yield_point r \<noteq> None)
   \<and> fracture_search (out_stress r) (loc_tangent_modulus_arr r) (loc_E r) = Inr (loc_peak_idx r, loc_fracture_idx r)
   \<and> point_at (out_strain r) (out_stress r) (out_slope_angles r) (loc_fracture_idx r) = Inr (out_fracture_point r)"
proof -
  obtain displacement load where al: "align dcells lcells = (displacement, load)"
    by (cases "align dcells lcells")
  define stress where "stress = stress_of load area"
  define strain where "strain = strain_of displacement gl"
  define sl where "sl = map degrees_arctan (youngs_modulus stress strain)"
  from assms obtain tangent where t: "tangent_modulus stress strain = Inr tangent"
    and r1: "exc_bind (np_max stress) (\<lambda>max_stress_val.
      exc_bind (np_max strain) (\<lambda>max_strain_val.
      exc_bind (scalar_modulus tangent
                  (elastic_mask stress strain max_stress_val max_strain_val)
                  (length strain)) (\<lambda>E.
      let yield_index = yield_scan 0 strain stress (offset_stress_of E strain) in
      exc_bind (case yield_index of
                  None \<Rightarrow> Inr None
                | Some i \<Rightarrow> exc_bind (point_at strain stress sl i)
                             (\<lambda>p. Inr (Some p))) (\<lambda>yield_point.
      let offset_line = (case yield_point of
                           Some p \<Rightarrow> [(0.002, 0), (pt_strain p, pt_stress p)]
                         | None \<Rightarrow> []) in
      exc_bind (fracture_search stress tangent E) (\<lambda>(peak_idx, fracture_idx).
      exc_bind (point_at strain stress sl fracture_idx) (\<lambda>fracture_point.
      exc_bind (np_max load) (\<lambda>max_load.
      let yield_strength = (case yield_point of Some p \<Rightarrow> pt_stress p | None \<Rightarrow> 0) in
      Inr \<lparr> out_displacement = displacement,
            out_load = load,
            out_stress = stress,
            out_strain = strain,
            out_youngs_modulus = youngs_modulus stress strain,
            out_slope_angles = sl,
            out_yield_point = yield_point,
            out_yield_index = yield_index,
            out_fracture_point = fracture_point,
            out_offset_line = offset_line,
            out_metrics = \<lparr> max_stress_mpa = py_round max_stress_val 2,
                            yield_strength_mpa = py_round yield_strength 2,
                            max_strain = py_round max_strain_val 6,
                            max_load_n = py_round max_load 2 \<rparr>,
            out_columns_used = (dc, lc),
            loc_tangent_modulus_arr = tangent,
            loc_E = E,
            loc_peak_idx = peak_idx,
            loc_fracture_idx = fracture_idx \<rparr>))))))) = Inr r"
    unfolding run_analysis_def al stress_def strain_def sl_def Let_def prod.case exc_bind_Inr_iff
    by blast
  from r1 obtain maxs maxe E yp pf fp maxl where
        ms: "np_max stress = Inr maxs" and me: "np_max strain = Inr maxe"
    and e: "scalar_modulus tangent (elastic_mask stress strain maxs maxe) (length strain) = Inr E"
    and y: "(case yield_scan 0 strain stress (offset_stress_of E strain) of
                  None \<Rightarrow> Inr None
                | Some i \<Rightarrow> exc_bind (point_at strain stress sl i)
                             (\<lambda>p. Inr (Some p))) = Inr yp"
    and f: "fracture_search stress tangent E = Inr pf"
    and p: "point_at strain stress sl (snd pf) = Inr fp"
    and r: "r = \<lparr> out_displacement = displacement,
            out_load = load,
            out_stress = stress,
            out_strain = strain,
            out_youngs_modulus = youngs_modulus stress strain,
            out_slope_angles = sl,
            out_yield_point = yp,
            out_yield_index = yield_scan 0 strain stress (offset_stress_of E strain),
            out_fracture_point = fp,
            out_offset_line = (case yp of
                           Some p \<Rightarrow> [(0.002, 0), (pt_strain p, pt_stress p)]
                         | None \<Rightarrow> []),
            out_metrics = \<lparr> max_stress_mpa = py_round maxs 2,
                            yield_strength_mpa = py_round (case yp of Some p \<Rightarrow> pt_stress p | None \<Rightarrow> 0) 2,
                            max_strain = py_round maxe 6,
                            max_load_n = py_round maxl 2 \<rparr>,
            out_columns_used = (dc, lc),
            loc_tangent_modulus_arr = tangent,
            loc_E = E,
            loc_peak_idx = fst pf,
            loc_fracture_idx = snd pf \<rparr>"
    unfolding Let_def
    by (auto simp: exc_bind_Inr_iff split: prod.splits)
  have yy: "(case yield_scan 0 strain stress (offset_stress_of E strain) of None \<Rightarrow> yp = None
        | Some i \<Rightarrow> point_at strain stress sl i = Inr (the yp) \<and> yp \<noteq> None)"
    using y by (auto simp: exc_bind_Inr_iff split: option.splits)
  show ?thesis
    apply (rule exI[of _ maxs], rule exI[of _ maxe])
    using al t ms me e f p yy
    by (simp add: r stress_def strain_def sl_def split: option.splits)
qed

lemma analyze_Ok:
  assumes "analyze file area gl = Ok r"
  shows "\<exists>dc lc dcells lcells. file = Some (Detected dc lc dcells lcells) \<and> 0 < area \<and> 0 < gl
          \<and> run_analysis dc lc dcells lcells area gl = Inr r"
  using assms unfolding analyze_def
  by (auto split: option.splits if_splits upload.splits sum.splits)

lemma align_lengths: "length (fst (align d l)) = length (snd (align d l))"
  by (simp add: align_def Let_def)

lemma np_gradient_short:
  "length x < 2 \<Longrightarrow> length f = length x \<Longrightarrow> np_gradient f x = Inl IndexError"
  by (cases x; cases "tl x") (auto simp: np_gradient_def np_diff_def)

lemma short_upload_index_error:
  assumes "0 < area" "0 < gauge_length"
    and "length (fst (align disp_cells load_cells)) < 2"
  shows "analyze (Some (Detected disp_col load_col disp_cells load_cells)) area gauge_length
         = Error 500 (Exception_text IndexError)"
proof -
  obtain displacement load where al: "align disp_cells load_cells = (displacement, load)"
    by (cases "align disp_cells load_cells")
  have len: "length load = length displacement" "length displacement < 2"
    using align_lengths[of disp_cells load_cells] assms(3) by (simp_all add: al)
  have "np_gradient (stress_of load area) (strain_of displacement gauge_length) = Inl IndexError"
    by (rule np_gradient_short) (simp_all add: len stress_of_def strain_of_def)
  then have "tangent_modulus (stress_of load area) (strain_of displacement gauge_length) = Inl IndexError"
    by (simp add: tangent_modulus_def)
  then have "run_analysis disp_col load_col disp_cells load_cells area gauge_length = Inl IndexError"
    by (simp add: run_analysis_def al exc_bind_def)
  then show ?thesis using assms(1,2) by (simp add: analyze_def)
qed

text \<open>The definitions a concrete run unfolds.\<close>

lemmas eval_defs = analyze_def run_analysis_def align_def dropna_def List.map_filter_def stress_of_def strain_of_def youngs_modulus_def tangent_modulus_def np_gradient_def np_diff_def interior_uniform_def rdiv_def exc_bind_def elastic_mask_def scalar_modulus_def offset_stress_of_def point_at_def py_index_def fracture_search_def Let_def signed_inf_def
  interior_nonuniform_def interior_point_def rdiv_prod_def bool_index_def np_percentile_def
  fl_sort_def lerp_def fsub_def np_mean_def fge_def fmax_def fallback_window_def

subsection \<open>The peak and the index of the steepest drop\<close>

lemma argmax_from_spec:
  assumes "best < length ys" "ys ! best = bv" "\<forall>y\<in>set ys. y \<le> bv" "\<forall>j<best. ys ! j < bv"
  shows "argmax_from best bv (length ys) xs < length (ys @ xs)
       \<and> (\<forall>z\<in>set (ys @ xs). z \<le> (ys @ xs) ! argmax_from best bv (length ys) xs)
       \<and> (\<forall>j<argmax_from best bv (length ys) xs. (ys @ xs) ! j < (ys @ xs) ! argmax_from best bv (length ys) xs)"
  using assms
proof (induction xs arbitrary: ys best bv)
  case Nil
  then show ?case by simp
next
  case (Cons x xs)
  show ?case
  proof (cases "bv < x")
    case True
    have a: "length ys < length (ys @ [x])" by simp
    have b: "(ys @ [x]) ! length ys = x" by simp
    have c: "\<forall>y\<in>set (ys @ [x]). y \<le> x" using Cons.prems(3) True by auto
    have d: "\<forall>j<length ys. (ys @ [x]) ! j < x"
    proof (intro allI impI)
      fix j assume j: "j < length ys"
      then have "ys ! j \<le> bv" using Cons.prems(3) by simp
      then show "(ys @ [x]) ! j < x" using True j by (simp add: nth_append)
    qed
    from Cons.IH[OF a b c d] True show ?thesis by simp
  next
    case False
    have a: "best < length (ys @ [x])" using Cons.prems(1) by simp
    have b: "(ys @ [x]) ! best = bv" using Cons.prems(1,2) by (simp add: nth_append)
    have c: "\<forall>y\<in>set (ys @ [x]). y \<le> bv" using Cons.prems(3) False by auto
    have d: "\<forall>j<best. (ys @ [x]) ! j < bv" using Cons.prems(1,4) by (simp add: nth_append)
    from Cons.IH[OF a b c d] False show ?thesis by simp
  qed
qed

lemma np_argmax_spec:
  assumes "xs \<noteq> []"
  shows "\<exists>k. np_argmax xs = Inr k \<and> k < length xs \<and> (\<forall>z\<in>set xs. z \<le> xs ! k)
            \<and> (\<forall>j<k. xs ! j < xs ! k)"
proof -
  obtain x xs' where xs: "xs = x # xs'" using assms by (cases xs) auto
  have "argmax_from 0 x (length [x]) xs' < length ([x] @ xs')
       \<and> (\<forall>z\<in>set ([x] @ xs'). z \<le> ([x] @ xs') ! argmax_from 0 x (length [x]) xs')
       \<and> (\<forall>j<argmax_from 0 x (length [x]) xs'. ([x] @ xs') ! j < ([x] @ xs') ! argmax_from 0 x (length [x]) xs')"
    by (rule argmax_from_spec) simp_all
  then show ?thesis by (simp add: xs)
qed

lemma argmin_from_bound: "best < i \<Longrightarrow> argmin_from best bv i xs < i + length xs"
proof (induction xs arbitrary: best bv i)
  case Nil
  then show ?case by simp
next
  case (Cons x xs)
  have a: "argmin_from i x (Suc i) xs < Suc i + length xs"
    by (rule Cons.IH) simp
  have b: "argmin_from best bv (Suc i) xs < Suc i + length xs"
    by (rule Cons.IH) (use Cons.prems in simp)
  show ?case using a b Cons.prems by simp
qed

lemma np_argmin_fl_bound: "np_argmin_fl xs = Inr k \<Longrightarrow> k < length xs"
  using argmin_from_bound[of 0 1] by (cases xs) auto

lemma length_np_diff: "length (np_diff x) = length x - 1"
  by (simp add: np_diff_def)

lemma length_np_gradient: "np_gradient f x = Inr g \<Longrightarrow> length g = length f"
  by (auto simp: np_gradient_def Let_def interior_uniform_def interior_nonuniform_def
        length_np_diff split: if_splits)

lemma length_tangent_modulus: "tangent_modulus f x = Inr g \<Longrightarrow> length g = length f"
  by (auto simp: tangent_modulus_def length_np_gradient split: sum.splits py_exception.splits)

lemma fracture_search_range:
  assumes "fracture_search stress tangent E = Inr (p, q)" "length tangent = length stress"
  shows "\<exists>k. np_argmax stress = Inr k \<and> p = int k \<and> p \<le> q \<and> q \<le> int (length stress) - 1"
proof -
  from assms(1) obtain k where k: "np_argmax stress = Inr k"
    and rest: "(let post_peak_tangent = drop k tangent in
       if length post_peak_tangent > 1 then
         exc_bind (np_argmin_fl post_peak_tangent) (\<lambda>min_slope_idx_local.
           let min_slope_val = post_peak_tangent ! min_slope_idx_local;
               min_slope_idx = int k + int min_slope_idx_local
           in if flt min_slope_val (fmul (Fin (- 0.05)) E)
              then Inr (int k, max (int k) (min_slope_idx - 1))
              else Inr (int k, int k))
       else Inr (int k, int k)) = Inr (p, q)"
    unfolding fracture_search_def exc_bind_Inr_iff by blast
  have ne: "stress \<noteq> []" using k by (cases stress) auto
  from np_argmax_spec[OF ne] k have kl: "k < length stress" by auto
  show ?thesis
  proof (cases "length (drop k tangent) > 1")
    case False
    with rest have "p = int k" "q = int k" by (simp_all add: Let_def)
    with k kl show ?thesis by simp
  next
    case True
    with rest obtain m where m: "np_argmin_fl (drop k tangent) = Inr m"
      and r2: "(if flt (drop k tangent ! m) (fmul (Fin (- 0.05)) E)
              then Inr (int k, max (int k) (int k + int m - 1))
              else Inr (int k, int k)) = (Inr (p, q) :: py_exception + int \<times> int)"
      by (auto simp: Let_def exc_bind_Inr_iff)
    from np_argmin_fl_bound[OF m] have "m < length tangent - k" by simp
    then have mb: "int k + int m \<le> int (length stress) - 1" using assms(2) kl by simp
    from r2 have "p = int k \<and> int k \<le> q \<and> q \<le> max (int k) (int k + int m - 1)"
      by (auto split: if_splits)
    with mb kl k show ?thesis by auto
  qed
qed

lemma point_at_in_range:
  assumes "0 \<le> i" "i < int (length strain)" "length stress = length strain"
    "length angles = length strain"
  shows "point_at strain stress angles i
         = Inr \<lparr>pt_strain = strain ! nat i, pt_stress = stress ! nat i,
                 pt_slope_angle = angles ! nat i\<rparr>"
  using assms by (simp add: point_at_def py_index_def exc_bind_def)

lemma fracture_search_peak:
  assumes "fracture_search stress tangent E = Inr (p, q)"
  shows "np_argmax stress = Inr (nat p) \<and> 0 \<le> p"
  using assms unfolding fracture_search_def exc_bind_Inr_iff
  by (auto simp: Let_def exc_bind_Inr_iff split: if_splits)

subsection \<open>Maxima, the elastic mask and the fallback window\<close>

lemma fold_max_Max: "fold max xs (x::real) = Max (set (x # xs))"
proof (induction xs arbitrary: x)
  case Nil
  then show ?case by simp
next
  case (Cons y ys)
  have "fold max (y # ys) x = fold max ys (max y x)" by simp
  also have "\<dots> = Max (set (max y x # ys))" by (rule Cons.IH)
  also have "\<dots> = Max (insert (max y x) (set ys))" by simp
  also have "\<dots> = Max (insert x (insert y (set ys)))"
  proof (cases "ys = []")
    case True
    then show ?thesis by (simp add: max.commute)
  next
    case False
    then have "Max (insert (max y x) (set ys)) = max (max y x) (Max (set ys))" by simp
    also have "\<dots> = max x (max y (Max (set ys)))" by (simp add: max.commute max.left_commute)
    also have "\<dots> = Max (insert x (insert y (set ys)))" using False by simp
    finally show ?thesis .
  qed
  finally show ?case by simp
qed

lemma np_max_Max: "xs \<noteq> [] \<Longrightarrow> np_max xs = Inr (Max (set xs))"
  by (cases xs) (simp, simp only: np_max.simps fold_max_Max)

lemma np_max_Inr: "np_max xs = Inr m \<Longrightarrow> xs \<noteq> [] \<and> m = Max (set xs)"
  using np_max_Max[of xs] by (cases xs) auto

lemma elastic_mask_region:
  assumes "length stress = length strain"
  shows "list_ex id (elastic_mask stress strain (Max (set stress)) (Max (set strain)))
         \<longleftrightarrow> elastic_region stress strain \<noteq> []"
proof -
  have "list_ex id (elastic_mask stress strain (Max (set stress)) (Max (set strain)))
        \<longleftrightarrow> (\<exists>i<length stress. stress ! i > 0.05 * Max (set stress) \<and> strain ! i < 0.5 * Max (set strain))"
    using assms by (auto simp: elastic_mask_def list_ex_iff set_zip)
  also have "\<dots> \<longleftrightarrow> elastic_region stress strain \<noteq> []"
    by (auto simp: elastic_region_def filter_empty_conv)
  finally show ?thesis .
qed

lemma fallback_window_eq: "fallback_window n = max 5 (n div 5)"
proof -
  have "real n * 0.2 = real n / real 5" by simp
  then have "\<lfloor>real n * 0.2\<rfloor> = int (n div 5)"
    by (simp only: floor_divide_of_nat_eq)
  then show ?thesis by (simp add: fallback_window_def)
qed

lemma flt_fle: "flt x y \<Longrightarrow> fle x y"
  by (cases x; cases y) auto

lemma not_flt_fle: "x \<noteq> NaN \<Longrightarrow> y \<noteq> NaN \<Longrightarrow> \<not> flt x y \<Longrightarrow> fle y x"
  by (cases x; cases y) auto

lemma fle_refl: "x \<noteq> NaN \<Longrightarrow> fle x x"
  by (cases x) auto

lemma fle_trans: "fle x y \<Longrightarrow> fle y z \<Longrightarrow> fle x z"
  by (cases x; cases y; cases z) auto

lemma fmax_NaN: "fmax x y = NaN \<longleftrightarrow> x = NaN \<or> y = NaN"
  by (auto simp: fmax_def)

lemma fold_fmax_NaN:
  "(fold (\<lambda>y acc. fmax acc y) xs x = NaN) = (x = NaN \<or> NaN \<in> set xs)"
proof (induction xs arbitrary: x)
  case Nil
  show ?case by simp
next
  case (Cons y ys)
  have "(fold (\<lambda>y acc. fmax acc y) (y # ys) x = NaN)
        = (fold (\<lambda>y acc. fmax acc y) ys (fmax x y) = NaN)" by simp
  also have "\<dots> = (fmax x y = NaN \<or> NaN \<in> set ys)" by (rule Cons.IH)
  also have "\<dots> = (x = NaN \<or> NaN \<in> set (y # ys))"
    unfolding fmax_NaN by (simp only: set_simps insert_iff) blast
  finally show ?case .
qed

lemma fold_fmax_max:
  assumes "NaN \<notin> set (x # xs)"
  shows "fold (\<lambda>y acc. fmax acc y) xs x \<in> set (x # xs)
       \<and> (\<forall>v\<in>set (x # xs). fle v (fold (\<lambda>y acc. fmax acc y) xs x))"
  using assms
proof (induction xs arbitrary: x)
  case Nil
  then show ?case by (simp add: fle_refl)
next
  case (Cons y ys)
  have nn: "NaN \<notin> set (fmax x y # ys)" using Cons.prems by (auto simp: fmax_def)
  from Cons.IH[OF nn] have ih1: "fold (\<lambda>y acc. fmax acc y) ys (fmax x y) \<in> set (fmax x y # ys)"
    and ih2: "\<forall>v\<in>set (fmax x y # ys). fle v (fold (\<lambda>y acc. fmax acc y) ys (fmax x y))"
    by blast+
  have m: "fmax x y = x \<or> fmax x y = y" by (auto simp: fmax_def)
  have xy: "fle x (fmax x y)" "fle y (fmax x y)"
    using Cons.prems by (auto simp: fmax_def flt_fle not_flt_fle fle_refl)
  have top: "fle (fmax x y) (fold (\<lambda>y acc. fmax acc y) ys (fmax x y))" using ih2 by simp
  have "fle x (fold (\<lambda>y acc. fmax acc y) ys (fmax x y))"
       "fle y (fold (\<lambda>y acc. fmax acc y) ys (fmax x y))"
    using xy top fle_trans by blast+
  then show ?case using ih1 ih2 m by auto
qed

lemma np_max_fl_spec:
  assumes "w \<noteq> []"
  shows "\<exists>m. np_max_fl w = Inr m
            \<and> (NaN \<in> set w \<longrightarrow> m = NaN)
            \<and> (NaN \<notin> set w \<longrightarrow> m \<in> set w \<and> (\<forall>v\<in>set w. fle v m))"
proof -
  obtain x xs where w: "w = x # xs" using assms by (cases w) auto
  show ?thesis
  proof (cases "NaN \<in> set (x # xs)")
    case True
    then have "fold (\<lambda>y acc. fmax acc y) xs x = NaN"
      unfolding fold_fmax_NaN by (simp only: set_simps insert_iff) blast
    then show ?thesis using True unfolding w by simp
  next
    case False
    from fold_fmax_max[OF False] show ?thesis using False unfolding w by simp
  qed
qed

lemma scalar_modulus_fallback:
  assumes "\<not> list_ex id msk" "length tangent = n"
  shows "(n \<le> 5 \<longrightarrow> scalar_modulus tangent msk n = Inr (Fin 1))
       \<and> (5 < n \<longrightarrow> take (max 5 (n div 5)) tangent \<noteq> []
              \<and> scalar_modulus tangent msk n = np_max_fl (take (max 5 (n div 5)) tangent))"
  using assms by (auto simp: scalar_modulus_def fallback_window_eq)

subsection \<open>The scan for the crossing\<close>

lemma yield_scan_Some:
  assumes "yield_scan i es ss os = Some y"
  shows "\<exists>k. y = int (i + k) - 1 \<and> k < length es \<and> k < length ss \<and> k < length os
            \<and> es ! k > 0.002 \<and> flt (Fin (ss ! k)) (os ! k)
            \<and> (\<forall>j<k. \<not> (es ! j > 0.002 \<and> flt (Fin (ss ! j)) (os ! j)))"
  using assms
proof (induction i es ss os rule: yield_scan.induct)
  case (1 i e strain s stress_mpa off offset_stress)
  show ?case
  proof (cases "e > 0.002 \<and> flt (Fin s) off")
    case True
    then have "y = int i - 1" using "1.prems" by simp
    then have "y = int (i + 0) - 1 \<and> 0 < length (e # strain) \<and> 0 < length (s # stress_mpa)
            \<and> 0 < length (off # offset_stress)
            \<and> (e # strain) ! 0 > 0.002 \<and> flt (Fin ((s # stress_mpa) ! 0)) ((off # offset_stress) ! 0)
            \<and> (\<forall>j<0. \<not> ((e # strain) ! j > 0.002
                     \<and> flt (Fin ((s # stress_mpa) ! j)) ((off # offset_stress) ! j)))"
      using True by simp
    then show ?thesis by blast
  next
    case False
    then have rec: "yield_scan (Suc i) strain stress_mpa offset_stress = Some y"
      using "1.prems" by (auto split: if_splits)
    from "1.IH"[OF False rec] obtain k where
      k: "y = int (Suc i + k) - 1" "k < length strain" "k < length stress_mpa"
         "k < length offset_stress" "strain ! k > 0.002"
         "flt (Fin (stress_mpa ! k)) (offset_stress ! k)"
         "\<forall>j<k. \<not> (strain ! j > 0.002 \<and> flt (Fin (stress_mpa ! j)) (offset_stress ! j))"
      by blast
    have before: "\<forall>j<Suc k. \<not> ((e # strain) ! j > 0.002
                     \<and> flt (Fin ((s # stress_mpa) ! j)) ((off # offset_stress) ! j))"
    proof (intro allI impI)
      fix j assume "j < Suc k"
      then show "\<not> ((e # strain) ! j > 0.002
                     \<and> flt (Fin ((s # stress_mpa) ! j)) ((off # offset_stress) ! j))"
        using False k(7) by (cases j) auto
    qed
    have "y = int (i + Suc k) - 1 \<and> Suc k < length (e # strain) \<and> Suc k < length (s # stress_mpa)
            \<and> Suc k < length (off # offset_stress)
            \<and> (e # strain) ! Suc k > 0.002
            \<and> flt (Fin ((s # stress_mpa) ! Suc k)) ((off # offset_stress) ! Suc k)"
      using k by simp
    then show ?thesis using before by blast
  qed
qed simp_all

subsection \<open>The region's values, their percentile and their mean\<close>

lemma zip_as_map: "zip xs ys = map (\<lambda>i. (xs ! i, ys ! i)) [0..<min (length xs) (length ys)]"
  by (rule nth_equalityI) simp_all

lemma bool_index_nth:
  assumes "length msk = length xs"
  shows "bool_index xs msk = map (nth xs) (filter (\<lambda>i. msk ! i) [0..<length xs])"
proof -
  have "bool_index xs msk
        = map fst (filter snd (map (\<lambda>i. (xs ! i, msk ! i)) [0..<length xs]))"
    unfolding bool_index_def by (subst zip_as_map) (simp add: assms)
  also have "\<dots> = map (nth xs) (filter (\<lambda>i. msk ! i) [0..<length xs])"
    by (simp add: filter_map comp_def)
  finally show ?thesis .
qed

lemma bool_index_region:
  assumes "length stress = length strain" "length tangent = length stress"
  shows "bool_index tangent (elastic_mask stress strain (Max (set stress)) (Max (set strain)))
         = map (nth tangent) (elastic_region stress strain)"
proof -
  let ?m = "elastic_mask stress strain (Max (set stress)) (Max (set strain))"
  have lm: "length ?m = length tangent" using assms by (simp add: elastic_mask_def)
  have "filter (\<lambda>i. ?m ! i) [0..<length tangent]
        = filter (\<lambda>i. stress ! i > 0.05 * Max (set stress) \<and> strain ! i < 0.5 * Max (set strain))
            [0..<length tangent]"
    by (rule filter_cong) (use assms in \<open>simp_all add: elastic_mask_def\<close>)
  then show ?thesis
    unfolding bool_index_nth[OF lm] elastic_region_def using assms(2) by simp
qed

lemma fin_list: "list_all is_fin vs \<Longrightarrow> vs = map Fin (map fl_val vs)"
proof (induction vs)
  case Nil
  show ?case by simp
next
  case (Cons v vs)
  then show ?case by (cases v) simp_all
qed

lemma fl_insort_Fin: "fl_insort (Fin x) (map Fin ys) = map Fin (insort x ys)"
  by (induction ys) auto

lemma fl_sort_Fin: "fl_sort (map Fin xs) = map Fin (sort xs)"
  unfolding fl_sort_def sort_key_def
  by (induction xs) (simp_all add: fl_insort_Fin)

lemma lerp_Fin_le:
  assumes "a \<le> b" "0 \<le> t" "t \<le> 1"
  shows "\<exists>p. lerp (Fin a) (Fin b) t = Fin p \<and> p \<le> b"
proof (cases "t \<ge> 0.5")
  case True
  have "0 \<le> (b - a) * (1 - t)" using assms by simp
  then have "b - (b - a) * (1 - t) \<le> b" by simp
  then show ?thesis using True by (simp add: lerp_def fsub_def Let_def)
next
  case False
  have "(b - a) * t \<le> (b - a) * 1" using assms by (intro mult_left_mono) simp_all
  then have "a + (b - a) * t \<le> b" by simp
  then show ?thesis using False by (simp add: lerp_def fsub_def Let_def)
qed

lemma lerp_Fin_same: "lerp (Fin a) (Fin a) t = Fin a"
  by (simp add: lerp_def fsub_def Let_def)

lemma no_NaN_Fin: "\<not> list_ex (\<lambda>v. v = NaN) (map Fin xs)"
  by (auto simp: list_ex_iff)

lemma np_percentile_Fin:
  assumes "xs \<noteq> []"
  shows "\<exists>p. np_percentile (map Fin xs) 90 = Fin p \<and> (\<exists>x\<in>set xs. p \<le> x)"
proof -
  define n where "n = length xs"
  define v where "v = (real n - 1) * (90 / 100)"
  have n1: "1 \<le> n" using assms by (cases xs) (simp_all add: n_def)
  have v0: "0 \<le> v" using n1 by (simp add: v_def)
  have srt: "fl_sort (map Fin xs) = map Fin (sort xs)" by (rule fl_sort_Fin)
  have ls: "length (sort xs) = n" by (simp add: n_def)
  have c: "(real (length (map Fin xs)) - 1) * (90 / 100) = v" by (simp add: v_def n_def)
  have ne: "map Fin xs \<noteq> []" using assms by simp
  show ?thesis
  proof (cases "v \<ge> real n - 1")
    case True
    have in_range: "n - 1 < length (sort xs)" using n1 ls by simp
    have val: "np_percentile (map Fin xs) 90 = lerp (Fin (sort xs ! (n - 1))) (Fin (sort xs ! (n - 1))) (v + 1)"
      unfolding np_percentile_def Let_def c
      using True ne in_range
      by (simp add: no_NaN_Fin srt n_def[symmetric])
    have "sort xs ! (n - 1) \<in> set (sort xs)" using in_range by (rule nth_mem)
    then have "sort xs ! (n - 1) \<in> set xs" by simp
    then show ?thesis unfolding val lerp_Fin_same by blast
  next
    case False
    then have vlt: "v < real n - 1" by simp
    define k where "k = nat \<lfloor>v\<rfloor>"
    have fl: "real_of_int \<lfloor>v\<rfloor> \<le> v" by simp
    have kv: "real k \<le> v" using v0 fl by (simp add: k_def)
    then have "real k < real n - 1" using vlt by simp
    then have kn: "k + 1 < n" by linarith
    have g0: "0 \<le> v - real_of_int \<lfloor>v\<rfloor>" by simp
    have g1: "v - real_of_int \<lfloor>v\<rfloor> \<le> 1" by linarith
    have r1: "k < length (sort xs)" and r2: "k + 1 < length (sort xs)" using kn ls by simp_all
    have val: "np_percentile (map Fin xs) 90
               = lerp (Fin (sort xs ! k)) (Fin (sort xs ! (k + 1))) (v - real_of_int \<lfloor>v\<rfloor>)"
      unfolding np_percentile_def Let_def c
      using False ne r1 r2
      by (simp add: no_NaN_Fin srt n_def[symmetric] k_def[symmetric])
    have mono: "sort xs ! k \<le> sort xs ! (k + 1)"
      by (rule sorted_nth_mono) (use r2 in simp_all)
    from lerp_Fin_le[OF mono g0 g1] obtain p where
      p: "lerp (Fin (sort xs ! k)) (Fin (sort xs ! (k + 1))) (v - real_of_int \<lfloor>v\<rfloor>) = Fin p"
         "p \<le> sort xs ! (k + 1)"
      by blast
    have "sort xs ! (k + 1) \<in> set (sort xs)" using r2 by (rule nth_mem)
    then have "sort xs ! (k + 1) \<in> set xs" by simp
    then show ?thesis unfolding val using p by blast
  qed
qed

lemma foldl_fadd_Fin: "foldl fadd (Fin s) (map Fin xs) = Fin (s + sum_list xs)"
  by (induction xs arbitrary: s) (simp_all add: add.assoc)

lemma np_mean_Fin:
  assumes "xs \<noteq> []"
  shows "np_mean (map Fin xs) = Fin (sum_list xs / real (length xs))"
  using assms by (simp add: np_mean_def foldl_fadd_Fin rdiv_def)

subsection \<open>The gradient on a constant strain, and the index -1\<close>

text \<open>
  On arrays of equal length \<open>np.gradient\<close> never raises ValueError, so the zeros of
  line 92 are never taken; on a constant strain of two or more samples no entry of the
  tangent modulus is finite. A crossing at index 0 makes the yield index -1, and the
  point read at -1 is the last sample.
\<close>

lemma np_gradient_no_ValueError:
  assumes "length x = length f"
  shows "np_gradient f x \<noteq> Inl ValueError"
proof -
  have "length f < 2 \<Longrightarrow> np_diff x = []"
    using assms by (simp add: np_diff_def) (cases x; cases "tl x"; simp)
  then show ?thesis using assms by (auto simp: np_gradient_def Let_def)
qed

lemma tangent_modulus_no_fallback:
  assumes "length strain = length stress"
  shows "tangent_modulus stress strain = np_gradient stress strain"
  using np_gradient_no_ValueError[OF assms]
  by (auto simp: tangent_modulus_def split: sum.splits py_exception.splits)

lemma rdiv_zero_not_fin: "\<not> is_fin (rdiv x 0)"
  by (simp add: rdiv_def signed_inf_def)

lemma np_diff_constant:
  assumes "\<forall>e\<in>set x. e = c"
  shows "\<forall>d\<in>set (np_diff x). d = 0"
proof
  fix d assume "d \<in> set (np_diff x)"
  then obtain a b where ab: "(a, b) \<in> set (zip (tl x) (butlast x))" and d: "d = a - b"
    by (auto simp: np_diff_def)
  from ab have "a \<in> set (tl x)" "b \<in> set (butlast x)" by (auto dest: in_set_zipE)
  then have "a \<in> set x" "b \<in> set x"
    by (auto dest: in_set_butlastD list.set_sel(2)[rotated])
  then have "a = c" "b = c" using assms by blast+
  then show "d = 0" by (simp add: d)
qed

lemma constant_strain_non_finite:
  assumes "2 \<le> length strain" "length stress = length strain" "\<forall>e\<in>set strain. e = c"
  shows "\<exists>g. tangent_modulus stress strain = Inr g \<and> length g = length stress
            \<and> (\<forall>v\<in>set g. \<not> is_fin v)"
proof -
  have z: "\<forall>d\<in>set (np_diff strain). d = 0" by (rule np_diff_constant[OF assms(3)])
  have ne: "np_diff strain \<noteq> []" using assms(1) by (simp add: np_diff_def) (cases strain; cases "tl strain"; simp)
  have h: "hd (np_diff strain) = 0" "last (np_diff strain) = 0" using z ne by simp_all
  have u: "list_all (\<lambda>d. d = hd (np_diff strain)) (np_diff strain)"
    using z h by (simp add: list_all_iff)
  have g: "np_gradient stress strain
           = Inr (rdiv (stress ! 1 - stress ! 0) 0 # interior_uniform 0 stress
                  @ [rdiv (stress ! (length stress - 1) - stress ! (length stress - 2)) 0])"
    using assms(1,2) ne u h by (simp add: np_gradient_def Let_def)
  have i: "\<forall>v\<in>set (interior_uniform 0 stress). \<not> is_fin v"
    by (auto simp: interior_uniform_def rdiv_zero_not_fin)
  have "tangent_modulus stress strain = np_gradient stress strain"
    by (rule tangent_modulus_no_fallback) (simp add: assms(2))
  then show ?thesis
    using g i length_tangent_modulus[of stress strain] by (auto simp: rdiv_zero_not_fin)
qed

lemma yield_scan_crossing_at_first:
  assumes "e > 0.002" "flt (Fin s) off"
  shows "yield_scan 0 (e # strain) (s # stress) (off # offset) = Some (- 1)"
  using assms by simp

lemma py_index_minus_one:
  assumes "xs \<noteq> []"
  shows "py_index xs (- 1) = Inr (last xs)"
proof -
  have l: "1 \<le> length xs" using assms by (cases xs) simp_all
  have "nat (int (length xs) + - 1) = length xs - 1" by simp
  then show ?thesis using assms l by (simp add: py_index_def last_conv_nth)
qed

lemma point_at_minus_one:
  assumes "strain \<noteq> []" "stress \<noteq> []" "angles \<noteq> []"
  shows "point_at strain stress angles (- 1)
         = Inr \<lparr>pt_strain = last strain, pt_stress = last stress, pt_slope_angle = last angles\<rparr>"
  using assms by (simp add: point_at_def py_index_minus_one exc_bind_def)

subsection \<open>Rounding to doubles is monotone\<close>

text \<open>Rounding to the nearest integer, ties to even.\<close>

lemma round_half_even_bounds:
  "real_of_int (round_half_even t) \<le> t + 1 / 2" "t - 1 / 2 \<le> real_of_int (round_half_even t)"
  unfolding round_half_even_def Let_def by (auto; linarith)+

lemma round_half_even_of_int: "round_half_even (real_of_int n) = n"
  by (simp add: round_half_even_def)

lemma round_half_even_mono:
  assumes "t \<le> t'"
  shows "round_half_even t \<le> round_half_even t'"
proof (cases "\<lfloor>t\<rfloor> = \<lfloor>t'\<rfloor>")
  case True
  have "t - real_of_int \<lfloor>t'\<rfloor> \<le> t' - real_of_int \<lfloor>t'\<rfloor>" using assms by simp
  then show ?thesis unfolding round_half_even_def Let_def True by auto
next
  case False
  then have lt: "\<lfloor>t\<rfloor> < \<lfloor>t'\<rfloor>" using assms floor_mono[OF assms] by linarith
  have a: "round_half_even t \<le> \<lfloor>t\<rfloor> + 1" unfolding round_half_even_def Let_def by auto
  have b: "\<lfloor>t'\<rfloor> \<le> round_half_even t'" unfolding round_half_even_def Let_def by auto
  show ?thesis using a b lt by linarith
qed

lemma round_half_even_le: "t \<le> real_of_int n \<Longrightarrow> round_half_even t \<le> n"
  using round_half_even_mono[of t "real_of_int n"] by (simp add: round_half_even_of_int)

lemma round_half_even_ge: "real_of_int n \<le> t \<Longrightarrow> n \<le> round_half_even t"
  using round_half_even_mono[of "real_of_int n" t] by (simp add: round_half_even_of_int)


text \<open>The spacing of the doubles around a value.\<close>

lemma binade_mono:
  assumes "0 < x" "x \<le> y"
  shows "binade x \<le> binade y"
proof -
  have "log 2 \<bar>x\<bar> \<le> log 2 \<bar>y\<bar>" using assms by simp
  then have "\<lfloor>log 2 \<bar>x\<bar>\<rfloor> \<le> \<lfloor>log 2 \<bar>y\<bar>\<rfloor>" by (rule floor_mono)
  then show ?thesis by (simp add: binade_def)
qed

lemma binade_upper:
  assumes "0 < x"
  shows "x < 2 powr (real_of_int (binade x) + 1)"
proof -
  have "x < 2 powr (real_of_int \<lfloor>log 2 x\<rfloor> + 1)"
    using floor_log_eq_powr_iff[of x 2 "\<lfloor>log 2 x\<rfloor>"] assms by simp
  also have "\<dots> \<le> 2 powr (real_of_int (binade x) + 1)"
    using assms by (simp add: binade_def)
  finally show ?thesis .
qed

lemma binade_lower:
  assumes "0 < x" "- 1022 < binade x"
  shows "2 powr real_of_int (binade x) \<le> x"
proof -
  have "binade x = \<lfloor>log 2 x\<rfloor>" using assms by (simp add: binade_def max_def split: if_splits)
  then show ?thesis using floor_log_eq_powr_iff[of x 2 "\<lfloor>log 2 x\<rfloor>"] assms by simp
qed

lemma ulp_pos: "0 < ulp x"
  by (simp add: ulp_def)

lemma ulp_times: "ulp x * 2 ^ 52 = 2 powr real_of_int (binade x)"
proof -
  have "ulp x * 2 powr 52 = 2 powr (real_of_int (binade x - 52) + 52)"
    unfolding ulp_def by (rule powr_add[symmetric])
  then show ?thesis by simp
qed

lemma ulp_times': "ulp x * 2 ^ 53 = 2 powr (real_of_int (binade x) + 1)"
proof -
  have "ulp x * 2 powr 53 = 2 powr (real_of_int (binade x - 52) + 53)"
    unfolding ulp_def by (rule powr_add[symmetric])
  then show ?thesis by (simp add: algebra_simps)
qed

lemma rounded_magnitude_nonneg: "0 \<le> rounded_magnitude x"
proof -
  have "0 \<le> \<bar>x\<bar> / ulp x" using ulp_pos[of x] by simp
  then have "0 \<le> round_half_even (\<bar>x\<bar> / ulp x)"
    using round_half_even_ge[of 0] by simp
  then show ?thesis using ulp_pos[of x] by (simp add: rounded_magnitude_def)
qed

lemma rounded_magnitude_upper:
  assumes "0 < x"
  shows "rounded_magnitude x \<le> 2 powr (real_of_int (binade x) + 1)"
proof -
  have "x \<le> ulp x * 2 ^ 53"
    unfolding ulp_times' using binade_upper[OF assms] by (rule less_imp_le)
  then have "\<bar>x\<bar> / ulp x \<le> real_of_int (2 ^ 53)"
    using ulp_pos[of x] assms by (simp add: field_simps)
  then have "round_half_even (\<bar>x\<bar> / ulp x) \<le> 2 ^ 53" by (rule round_half_even_le)
  then have "real_of_int (round_half_even (\<bar>x\<bar> / ulp x)) \<le> 2 ^ 53"
    by (metis of_int_le_iff of_int_numeral of_int_power)
  then have "rounded_magnitude x \<le> 2 ^ 53 * ulp x"
    unfolding rounded_magnitude_def using ulp_pos[of x] by (intro mult_right_mono) simp_all
  then show ?thesis using ulp_times'[of x] by (simp add: mult.commute)
qed

lemma rounded_magnitude_lower:
  assumes "0 < x" "- 1022 < binade x"
  shows "2 powr real_of_int (binade x) \<le> rounded_magnitude x"
proof -
  have "ulp x * 2 ^ 52 \<le> x"
    unfolding ulp_times by (rule binade_lower[OF assms])
  then have "real_of_int (2 ^ 52) \<le> \<bar>x\<bar> / ulp x"
    using ulp_pos[of x] assms by (simp add: field_simps)
  then have "2 ^ 52 \<le> round_half_even (\<bar>x\<bar> / ulp x)" by (rule round_half_even_ge)
  then have "2 ^ 52 \<le> real_of_int (round_half_even (\<bar>x\<bar> / ulp x))"
    by (metis of_int_le_iff of_int_numeral of_int_power)
  then have "2 ^ 52 * ulp x \<le> rounded_magnitude x"
    unfolding rounded_magnitude_def using ulp_pos[of x] by (intro mult_right_mono) simp_all
  then show ?thesis using ulp_times[of x] by (simp add: mult.commute)
qed

lemma rounded_magnitude_mono:
  assumes "0 < x" "x \<le> y"
  shows "rounded_magnitude x \<le> rounded_magnitude y"
proof (cases "binade x = binade y")
  case True
  then have u: "ulp x = ulp y" by (simp add: ulp_def)
  have "\<bar>x\<bar> / ulp y \<le> \<bar>y\<bar> / ulp y" using assms ulp_pos[of y] by (simp add: divide_right_mono)
  then have "round_half_even (\<bar>x\<bar> / ulp y) \<le> round_half_even (\<bar>y\<bar> / ulp y)"
    by (rule round_half_even_mono)
  then show ?thesis unfolding rounded_magnitude_def u using ulp_pos[of y]
    by (intro mult_right_mono) simp_all
next
  case False
  then have lt: "binade x < binade y" using binade_mono[OF assms] by simp
  have y0: "0 < y" using assms by simp
  have "- 1022 \<le> binade x" by (simp add: binade_def)
  then have yb: "- 1022 < binade y" using lt by simp
  have "rounded_magnitude x \<le> 2 powr (real_of_int (binade x) + 1)"
    by (rule rounded_magnitude_upper[OF assms(1)])
  also have "\<dots> \<le> 2 powr real_of_int (binade y)" using lt by simp
  also have "\<dots> \<le> rounded_magnitude y" by (rule rounded_magnitude_lower[OF y0 yb])
  finally show ?thesis .
qed

lemma rounded_magnitude_neg: "rounded_magnitude (- x) = rounded_magnitude x"
  by (simp add: rounded_magnitude_def ulp_def binade_def)

lemma double_round_not_NaN: "double_round x \<noteq> NaN"
  by (simp add: double_round_def signed_inf_def)

lemma double_round_pos:
  assumes "0 < x"
  shows "double_round x = (if 2 ^ 1024 \<le> rounded_magnitude x then PInf else Fin (rounded_magnitude x))"
  using assms by (simp add: double_round_def signed_inf_def)

lemma double_round_neg:
  assumes "x < 0"
  shows "double_round x = (if 2 ^ 1024 \<le> rounded_magnitude x then NInf else Fin (- rounded_magnitude x))"
  using assms by (simp add: double_round_def signed_inf_def)

lemma double_round_mono:
  assumes "x \<le> y"
  shows "fle (double_round x) (double_round y)"
proof -
  consider (pp) "0 < x" | (nn) "y < 0" | (zx) "x = 0" | (zy) "y = 0" "x < 0" | (np) "x < 0" "0 < y"
    using assms by linarith
  then show ?thesis
  proof cases
    case pp
    then have y: "0 < y" using assms by simp
    have m: "rounded_magnitude x \<le> rounded_magnitude y"
      by (rule rounded_magnitude_mono[OF pp assms])
    show ?thesis unfolding double_round_pos[OF pp] double_round_pos[OF y] using m by auto
  next
    case nn
    then have x: "x < 0" using assms by simp
    have "rounded_magnitude (- y) \<le> rounded_magnitude (- x)"
      by (rule rounded_magnitude_mono) (use nn assms in simp_all)
    then have m: "rounded_magnitude y \<le> rounded_magnitude x"
      by (simp only: rounded_magnitude_neg)
    show ?thesis unfolding double_round_neg[OF nn] double_round_neg[OF x] using m by auto
  next
    case zx
    show ?thesis
    proof (cases "y = 0")
      case True
      then show ?thesis using zx by (simp add: double_round_def)
    next
      case False
      then have y: "0 < y" using assms zx by simp
      show ?thesis unfolding double_round_pos[OF y] using zx rounded_magnitude_nonneg[of y]
        by (simp add: double_round_def)
    qed
  next
    case zy
    show ?thesis unfolding double_round_neg[OF zy(2)] using zy(1) rounded_magnitude_nonneg[of x]
      by (simp add: double_round_def)
  next
    case np
    show ?thesis unfolding double_round_neg[OF np(1)] double_round_pos[OF np(2)]
      using rounded_magnitude_nonneg[of x] rounded_magnitude_nonneg[of y] by auto
  qed
qed

lemma double_div_not_NaN: "a \<noteq> NaN \<Longrightarrow> double_div a d \<noteq> NaN"
  by (cases a) (simp_all add: double_round_not_NaN)

lemma fle_NInf_double_round: "fle NInf (double_round x)" and fle_double_round_PInf: "fle (double_round x) PInf"
  using double_round_not_NaN[of x] by (cases "double_round x"; simp)+

lemma double_div_mono:
  assumes "fle a b" "0 < d"
  shows "fle (double_div a d) (double_div b d)"
proof (cases a)
  case (Fin x)
  show ?thesis
  proof (cases b)
    case (Fin y)
    have "x / d \<le> y / d" using assms \<open>a = Fin x\<close> Fin by (simp add: divide_right_mono)
    then show ?thesis using \<open>a = Fin x\<close> Fin by (simp add: double_round_mono)
  next
    case PInf
    then show ?thesis using \<open>a = Fin x\<close> by (simp add: fle_double_round_PInf)
  qed (use assms \<open>a = Fin x\<close> in simp_all)
next
  case PInf
  then show ?thesis using assms by (cases b) simp_all
next
  case NInf
  then show ?thesis using assms by (cases b) (simp_all add: fle_NInf_double_round)
next
  case NaN
  then show ?thesis using assms by simp
qed

lemma stress_mpa_double_nth:
  "i < length load \<Longrightarrow>
     stress_mpa_double load area ! i = double_div (double_div (Fin (load ! i)) area) 1000000"
  by (simp add: stress_mpa_double_def)

lemma stress_mpa_double_mono:
  assumes "0 < area" "i < length load" "j < length load" "load ! i \<le> load ! j"
  shows "fle (stress_mpa_double load area ! i) (stress_mpa_double load area ! j)"
proof -
  have "fle (Fin (load ! i)) (Fin (load ! j))" using assms(4) by simp
  then have "fle (double_div (Fin (load ! i)) area) (double_div (Fin (load ! j)) area)"
    using assms(1) by (rule double_div_mono)
  then have "fle (double_div (double_div (Fin (load ! i)) area) 1000000)
                 (double_div (double_div (Fin (load ! j)) area) 1000000)"
    by (rule double_div_mono) simp
  then show ?thesis using assms(2,3) by (simp add: stress_mpa_double_nth)
qed

lemma stress_mpa_double_not_NaN: "NaN \<notin> set (stress_mpa_double load area)"
proof
  assume "NaN \<in> set (stress_mpa_double load area)"
  then obtain l where "NaN = double_div (double_div (Fin l) area) 1000000"
    unfolding stress_mpa_double_def by (auto simp del: double_div.simps)
  moreover have "double_div (Fin l) area \<noteq> NaN" by (rule double_div_not_NaN) simp
  ultimately show False using double_div_not_NaN by metis
qed

lemma fle_flt_trans: "fle x y \<Longrightarrow> flt y z \<Longrightarrow> flt x z"
  by (cases x; cases y; cases z) auto

lemma fle_antisym: "fle x y \<Longrightarrow> fle y x \<Longrightarrow> x = y"
  by (cases x; cases y) auto

lemma flt_irrefl: "\<not> flt x x"
  by (cases x) auto

lemma argmax_fl_from_spec:
  assumes "best < length ys" "ys ! best = bv" "NaN \<notin> set (ys @ xs)"
    "\<forall>y\<in>set ys. fle y bv" "\<forall>j<best. flt (ys ! j) bv"
  shows "argmax_fl_from best bv (length ys) xs < length (ys @ xs)
       \<and> (\<forall>z\<in>set (ys @ xs). fle z ((ys @ xs) ! argmax_fl_from best bv (length ys) xs))
       \<and> (\<forall>j<argmax_fl_from best bv (length ys) xs.
             flt ((ys @ xs) ! j) ((ys @ xs) ! argmax_fl_from best bv (length ys) xs))"
  using assms
proof (induction xs arbitrary: ys best bv)
  case Nil
  then show ?case by simp
next
  case (Cons x xs)
  have bvn: "bv \<noteq> NaN" using Cons.prems(1,2,3) by (metis Un_iff nth_mem set_append)
  have xn: "x \<noteq> NaN" using Cons.prems(3) by auto
  have nn: "NaN \<notin> set ((ys @ [x]) @ xs)" using Cons.prems(3) by simp
  show ?case
  proof (cases "flt bv x")
    case True
    have a: "length ys < length (ys @ [x])" by simp
    have b: "(ys @ [x]) ! length ys = x" by simp
    have c: "\<forall>y\<in>set (ys @ [x]). fle y x"
      using Cons.prems(4) True xn by (auto intro: fle_trans flt_fle fle_refl)
    have d: "\<forall>j<length ys. flt ((ys @ [x]) ! j) x"
    proof (intro allI impI)
      fix j assume j: "j < length ys"
      then have "fle (ys ! j) bv" using Cons.prems(4) by simp
      then have "flt (ys ! j) x" using True by (rule fle_flt_trans)
      then show "flt ((ys @ [x]) ! j) x" using j by (simp add: nth_append)
    qed
    from Cons.IH[OF a b nn c d] True bvn show ?thesis by simp
  next
    case False
    have a: "best < length (ys @ [x])" using Cons.prems(1) by simp
    have b: "(ys @ [x]) ! best = bv" using Cons.prems(1,2) by (simp add: nth_append)
    have "fle x bv" using False bvn xn by (rule not_flt_fle[rotated 2])
    then have c: "\<forall>y\<in>set (ys @ [x]). fle y bv" using Cons.prems(4) by auto
    have d: "\<forall>j<best. flt ((ys @ [x]) ! j) bv" using Cons.prems(1,5) by (simp add: nth_append)
    from Cons.IH[OF a b nn c d] False bvn xn show ?thesis by simp
  qed
qed

lemma np_argmax_fl_spec:
  assumes "xs \<noteq> []" "NaN \<notin> set xs"
  shows "\<exists>k. np_argmax_fl xs = Inr k \<and> k < length xs \<and> (\<forall>z\<in>set xs. fle z (xs ! k))
            \<and> (\<forall>j<k. flt (xs ! j) (xs ! k))"
proof -
  obtain x xs' where xs: "xs = x # xs'" using assms by (cases xs) auto
  have xn: "x \<noteq> NaN" using assms(2) xs by auto
  have "argmax_fl_from 0 x (length [x]) xs' < length ([x] @ xs')
       \<and> (\<forall>z\<in>set ([x] @ xs'). fle z (([x] @ xs') ! argmax_fl_from 0 x (length [x]) xs'))
       \<and> (\<forall>j<argmax_fl_from 0 x (length [x]) xs'.
             flt (([x] @ xs') ! j) (([x] @ xs') ! argmax_fl_from 0 x (length [x]) xs'))"
    by (rule argmax_fl_from_spec) (use assms(2) xs xn in \<open>simp_all add: fle_refl\<close>)
  then show ?thesis by (simp add: xs)
qed

lemma double_round_eval:
  assumes "0 < x" "2 powr real_of_int e \<le> x" "x < 2 powr (real_of_int e + 1)" "- 1022 \<le> e"
    and "round_half_even (x / 2 powr real_of_int (e - 52)) = m"
    and "real_of_int m * 2 powr real_of_int (e - 52) < 2 ^ 1024"
  shows "double_round x = Fin (real_of_int m * 2 powr real_of_int (e - 52))"
proof -
  have "\<lfloor>log 2 x\<rfloor> = e" using floor_log_eq_powr_iff[of x 2 e] assms(1,2,3) by simp
  then have b: "binade x = e" using assms(1,4) by (simp add: binade_def)
  have rm: "rounded_magnitude x = real_of_int m * 2 powr real_of_int (e - 52)"
    using assms(1,5) by (simp add: rounded_magnitude_def ulp_def b)
  show ?thesis unfolding double_round_pos[OF assms(1)] rm using assms(6) by simp
qed

text \<open>The doubles of the example: area 0.003 is \<open>3458764513820541 / 2^60\<close>, and the two
  loads are 100 and the next double above it.\<close>

lemma quotient_small_area_1:
  "double_round (100 / (3458764513820541 / 2 ^ 60)) = Fin (4581298449066667 / 2 ^ 37)"
proof -
  have "double_round (100 / (3458764513820541 / 2 ^ 60))
        = Fin (real_of_int 4581298449066667 * 2 powr real_of_int (15 - 52))"
    by (rule double_round_eval) (simp_all add: round_half_even_def Let_def powr_neg_numeral)
  then show ?thesis by (simp add: powr_neg_numeral)
qed

lemma quotient_small_area_2:
  "double_round ((100 + 1 / 2 ^ 46) / (3458764513820541 / 2 ^ 60)) = Fin (4581298449066667 / 2 ^ 37)"
proof -
  have "double_round ((100 + 1 / 2 ^ 46) / (3458764513820541 / 2 ^ 60))
        = Fin (real_of_int 4581298449066667 * 2 powr real_of_int (15 - 52))"
    by (rule double_round_eval) (simp_all add: round_half_even_def Let_def powr_neg_numeral)
  then show ?thesis by (simp add: powr_neg_numeral)
qed

lemma stress_small_area:
  "double_round (4581298449066667 / 2 ^ 37 / 1000000) = Fin (4803839602528529 / 2 ^ 57)"
proof -
  have "double_round (4581298449066667 / 2 ^ 37 / 1000000)
        = Fin (real_of_int 4803839602528529 * 2 powr real_of_int (- 5 - 52))"
    by (rule double_round_eval) (simp_all add: round_half_even_def Let_def powr_neg_numeral)
  then show ?thesis by (simp add: powr_neg_numeral)
qed

lemma quotient_unit_area_1: "double_round (100 / 1) = Fin 100"
proof -
  have "double_round (100 / 1)
        = Fin (real_of_int 7036874417766400 * 2 powr real_of_int (6 - 52))"
    by (rule double_round_eval) (simp_all add: round_half_even_def Let_def powr_neg_numeral)
  then show ?thesis by (simp add: powr_neg_numeral)
qed

lemma quotient_unit_area_2: "double_round ((100 + 1 / 2 ^ 46) / 1) = Fin (100 + 1 / 2 ^ 46)"
proof -
  have "double_round ((100 + 1 / 2 ^ 46) / 1)
        = Fin (real_of_int 7036874417766401 * 2 powr real_of_int (6 - 52))"
    by (rule double_round_eval) (simp_all add: round_half_even_def Let_def powr_neg_numeral)
  then show ?thesis by (simp add: powr_neg_numeral)
qed

lemma stress_unit_area_1:
  "double_round (100 / 1000000) = Fin (7378697629483821 / 2 ^ 66)"
proof -
  have "double_round (100 / 1000000)
        = Fin (real_of_int 7378697629483821 * 2 powr real_of_int (- 14 - 52))"
    by (rule double_round_eval) (simp_all add: round_half_even_def Let_def powr_neg_numeral)
  then show ?thesis by (simp add: powr_neg_numeral)
qed

lemma stress_unit_area_2:
  "double_round ((100 + 1 / 2 ^ 46) / 1000000) = Fin (7378697629483822 / 2 ^ 66)"
proof -
  have "double_round ((100 + 1 / 2 ^ 46) / 1000000)
        = Fin (real_of_int 7378697629483822 * 2 powr real_of_int (- 14 - 52))"
    by (rule double_round_eval) (simp_all add: round_half_even_def Let_def powr_neg_numeral)
  then show ?thesis by (simp add: powr_neg_numeral)
qed

lemma stress_double_small_area:
  "stress_mpa_double [100, 100 + 1 / 2 ^ 46] (3458764513820541 / 2 ^ 60)
   = [Fin (4803839602528529 / 2 ^ 57), Fin (4803839602528529 / 2 ^ 57)]"
  unfolding stress_mpa_double_def list.map double_div.simps
    quotient_small_area_1 quotient_small_area_2 stress_small_area ..

lemma stress_double_unit_area:
  "stress_mpa_double [100, 100 + 1 / 2 ^ 46] 1
   = [Fin (7378697629483821 / 2 ^ 66), Fin (7378697629483822 / 2 ^ 66)]"
  unfolding stress_mpa_double_def list.map double_div.simps
    quotient_unit_area_1 quotient_unit_area_2 stress_unit_area_1 stress_unit_area_2 ..

text \<open>Overflow: area \<open>1e-320\<close> is the subnormal \<open>2024 / 2^1074\<close>.\<close>

lemma rounded_magnitude_ge_power:
  assumes "- 1022 < n" "2 powr real_of_int n \<le> x"
  shows "2 powr real_of_int n \<le> rounded_magnitude x"
proof -
  define y :: real where "y = 2 powr real_of_int n"
  have pos: "0 < y" by (simp add: y_def)
  have "\<lfloor>log 2 \<bar>y\<bar>\<rfloor> = n" by (simp add: y_def)
  then have b: "binade y = n" using assms(1) by (simp add: binade_def)
  have "2 powr real_of_int (binade y) \<le> rounded_magnitude y"
    by (rule rounded_magnitude_lower[OF pos]) (simp add: b assms(1))
  then have "y \<le> rounded_magnitude y" unfolding b by (simp only: y_def[symmetric])
  also have "\<dots> \<le> rounded_magnitude x" using assms(2) by (intro rounded_magnitude_mono[OF pos]) (simp add: y_def)
  finally show ?thesis by (simp add: y_def)
qed

lemma double_round_overflow:
  assumes "2 ^ 1024 \<le> x"
  shows "double_round x = PInf"
proof -
  have e: "2 powr real_of_int 1024 = (2 ^ 1024 :: real)" by (simp add: powr_numeral)
  have x: "0 < x" using assms by (rule less_le_trans[rotated]) simp
  have "2 powr real_of_int 1024 \<le> x" using assms by (simp only: e)
  then have "2 powr real_of_int 1024 \<le> rounded_magnitude x"
    by (rule rounded_magnitude_ge_power[rotated]) simp
  then have "2 ^ 1024 \<le> rounded_magnitude x" by (simp only: e)
  then show ?thesis unfolding double_round_pos[OF x] by (simp only: if_True)
qed

lemma stress_double_overflow:
  "stress_mpa_double [1, 2] (2024 / 2 ^ 1074) = [PInf, PInf]"
proof -
  have a: "double_round (1 / (2024 / 2 ^ 1074)) = PInf" by (rule double_round_overflow) simp
  have b: "double_round (2 / (2024 / 2 ^ 1074)) = PInf" by (rule double_round_overflow) simp
  show ?thesis unfolding stress_mpa_double_def list.map double_div.simps a b ..
qed

subsection \<open>The claims\<close>

text \<open>
  C9. A request whose area or gauge length is not positive is rejected with the
  message that both must be positive (status 400), whatever the uploaded data are:
  the data are not looked at and no series or point is produced.
\<close>

theorem invalid_parameter_rejected:
  assumes "area \<le> 0 \<or> gauge_length \<le> 0"
  shows "analyze (Some content) area gauge_length
         = Error 400 Area_and_gauge_length_must_be_positive"
  using assms by (simp add: analyze_def)

theorem invalid_parameter_rejected_witness:
  "((0::real) \<le> 0 \<or> (1::real) \<le> 0)
   \<and> analyze (Some (Detected ''displacement'' ''load'' [Some 0, Some 1] [Some 0, Some 100])) 0 1
       = Error 400 Area_and_gauge_length_must_be_positive"
  using invalid_parameter_rejected
          [of 0 1 "Detected ''displacement'' ''load'' [Some 0, Some 1] [Some 0, Some 100]"]
  by simp

text \<open>
  C1, at a concrete upload: displacement cells 0 and an empty cell, load cells 100
  and 200, area 0.003, gauge length 1. One sample is left after the cells that are
  not numbers are dropped and both columns are cut to the common length.
  \<open>np.gradient\<close> raises IndexError on it; the handler of lines 91 and 92, which would
  replace a failing gradient by zeros, catches ValueError only, so the exception
  reaches the handler of line 201. The response has status 500 and the text of the
  exception; it is none of the rejections the function makes itself.
\<close>

theorem one_sample_index_error_escapes:
  "align [Some 0, None] [Some 100, Some 200] = ([0], [100])
   \<and> np_gradient (stress_of [100] (3 / 1000)) (strain_of [0] 1) = Inl IndexError
   \<and> tangent_modulus (stress_of [100] (3 / 1000)) (strain_of [0] 1) = Inl IndexError
   \<and> analyze (Some (Detected ''displacement'' ''load'' [Some 0, None] [Some 100, Some 200]))
         (3 / 1000) 1 = Error 500 (Exception_text IndexError)
   \<and> \<not> explicit_rejection
         (analyze (Some (Detected ''displacement'' ''load'' [Some 0, None] [Some 100, Some 200]))
            (3 / 1000) 1)"
  by (simp add: explicit_rejection_def eval_defs)

text \<open>
  C8. For the aligned columns of any upload, the secant modulus has the length of
  stress and of strain, equals \<open>stress[i] / strain[i]\<close> where \<open>strain[i]\<close> is not zero
  and \<open>0\<close> where it is zero; and a successful response carries exactly these three
  series.
\<close>

theorem youngs_modulus_pointwise:
  assumes "align disp_cells load_cells = (displacement, load)"
  shows "length (youngs_modulus (stress_of load area) (strain_of displacement gauge_length))
           = length (stress_of load area)
       \<and> length (stress_of load area) = length (strain_of displacement gauge_length)
       \<and> (\<forall>i < length (strain_of displacement gauge_length).
            youngs_modulus (stress_of load area) (strain_of displacement gauge_length) ! i
            = (if strain_of displacement gauge_length ! i \<noteq> 0
               then stress_of load area ! i / strain_of displacement gauge_length ! i
               else 0))
       \<and> (\<forall>r. analyze (Some (Detected disp_col load_col disp_cells load_cells)) area gauge_length
                 = Ok r
              \<longrightarrow> out_stress r = stress_of load area
                \<and> out_strain r = strain_of displacement gauge_length
                \<and> out_youngs_modulus r
                    = youngs_modulus (stress_of load area) (strain_of displacement gauge_length))"
proof -
  have len: "length load = length displacement"
    using align_lengths[of disp_cells load_cells] assms by simp
  have l2: "length (stress_of load area) = length (strain_of displacement gauge_length)"
    by (simp add: stress_of_def strain_of_def len)
  have l1: "length (youngs_modulus (stress_of load area) (strain_of displacement gauge_length))
           = length (stress_of load area)"
    by (simp add: youngs_modulus_def l2)
  have pt: "\<forall>i < length (strain_of displacement gauge_length).
            youngs_modulus (stress_of load area) (strain_of displacement gauge_length) ! i
            = (if strain_of displacement gauge_length ! i \<noteq> 0
               then stress_of load area ! i / strain_of displacement gauge_length ! i
               else 0)"
    by (simp add: youngs_modulus_def l2)
  have run: "\<forall>r. analyze (Some (Detected disp_col load_col disp_cells load_cells)) area gauge_length
                 = Ok r
              \<longrightarrow> out_stress r = stress_of load area
                \<and> out_strain r = strain_of displacement gauge_length
                \<and> out_youngs_modulus r
                    = youngs_modulus (stress_of load area) (strain_of displacement gauge_length)"
  proof (intro allI impI)
    fix r
    assume "analyze (Some (Detected disp_col load_col disp_cells load_cells)) area gauge_length = Ok r"
    then have "run_analysis disp_col load_col disp_cells load_cells area gauge_length = Inr r"
      using analyze_Ok by blast
    from run_analysis_Inr[OF this] show "out_stress r = stress_of load area
                \<and> out_strain r = strain_of displacement gauge_length
                \<and> out_youngs_modulus r
                    = youngs_modulus (stress_of load area) (strain_of displacement gauge_length)"
      using assms by auto
  qed
  show ?thesis using l1 l2 pt run by blast
qed

theorem youngs_modulus_pointwise_witness:
  "align [Some 0, Some 10, None] [Some 0, Some 300, Some 600] = ([0, 10], [0, 300])
   \<and> length (youngs_modulus (stress_of [0, 300] (3 / 1000)) (strain_of [0, 10] 1)) = 2
   \<and> youngs_modulus (stress_of [0, 300] (3 / 1000)) (strain_of [0, 10] 1) ! 0 = 0
   \<and> youngs_modulus (stress_of [0, 300] (3 / 1000)) (strain_of [0, 10] 1) ! 1
       = stress_of [0, 300] (3 / 1000) ! 1 / strain_of [0, 10] 1 ! 1"
proof -
  have al: "align [Some 0, Some 10, None] [Some 0, Some 300, Some 600] = ([0, 10], [0, 300])"
    by (simp add: align_def dropna_def List.map_filter_def)
  show ?thesis
    using youngs_modulus_pointwise [OF al, of "3 / 1000" 1 "''displacement''" "''load''"] al
    by (simp add: stress_of_def strain_of_def)
qed

text \<open>
  C2, at a concrete upload: displacement 10 and 20 mm, load 0 and 300 N, area
  0.003, gauge length 1. The crossing condition holds at index 0, the yield index
  is -1, and the yield point returned is the last sample, read through Python's
  negative index.
\<close>

theorem yield_index_minus_one_reads_last_sample:
  "(case analyze (Some (Detected ''displacement'' ''load'' [Some 10, Some 20] [Some 0, Some 300]))
           (3 / 1000) 1 of
      Ok r \<Rightarrow> out_strain r = [1 / 100, 1 / 50] \<and> out_stress r = [0, 1 / 10]
             \<and> loc_E r = Fin 1
             \<and> out_yield_index r = Some (- 1)
             \<and> out_yield_point r
                 = Some \<lparr>pt_strain = 1 / 50, pt_stress = 1 / 10,
                          pt_slope_angle = degrees_arctan 5\<rparr>
             \<and> out_offset_line r = [(2 / 1000, 0), (1 / 50, 1 / 10)]
    | Error code msg \<Rightarrow> False)"
  by (simp add: eval_defs)

text \<open>
  C7, at a concrete upload: two samples with the same displacement. The strain has
  one distinct value, \<open>np.gradient\<close> divides by the zero spacing without raising, and
  the tangent modulus is infinite at both samples, not zero.
\<close>

theorem constant_strain_gradient_not_zero:
  "(case analyze (Some (Detected ''displacement'' ''load'' [Some 0, Some 0] [Some 0, Some 100]))
           (3 / 1000) 1 of
      Ok r \<Rightarrow> out_strain r = [0, 0] \<and> out_stress r = [0, 1 / 30]
             \<and> loc_tangent_modulus_arr r = [PInf, PInf]
    | Error code msg \<Rightarrow> False)"
  by (simp add: eval_defs)

text \<open>
  C6. Whenever the call returns a result, the peak index is the first index of the
  global maximum of stress, and the fracture index lies between the peak index and
  the last index; the fracture point is the sample at the fracture index.
\<close>

theorem fracture_index_in_range:
  assumes "analyze file area gauge_length = Ok r"
  shows "0 \<le> loc_peak_idx r
       \<and> loc_peak_idx r \<le> loc_fracture_idx r
       \<and> loc_fracture_idx r \<le> int (length (out_stress r)) - 1
       \<and> np_argmax (out_stress r) = Inr (nat (loc_peak_idx r))
       \<and> (\<forall>s \<in> set (out_stress r). s \<le> out_stress r ! nat (loc_peak_idx r))
       \<and> out_fracture_point r
           = \<lparr>pt_strain = out_strain r ! nat (loc_fracture_idx r),
               pt_stress = out_stress r ! nat (loc_fracture_idx r),
               pt_slope_angle = out_slope_angles r ! nat (loc_fracture_idx r)\<rparr>"
proof -
  from analyze_Ok[OF assms] obtain dc lc dcells lcells where
    run: "run_analysis dc lc dcells lcells area gauge_length = Inr r" by blast
  from run_analysis_Inr[OF run] obtain maxs maxe where
        d: "out_displacement r = fst (align dcells lcells)"
    and l: "out_load r = snd (align dcells lcells)"
    and s: "out_stress r = stress_of (out_load r) area"
    and e: "out_strain r = strain_of (out_displacement r) gauge_length"
    and y: "out_youngs_modulus r = youngs_modulus (out_stress r) (out_strain r)"
    and a: "out_slope_angles r = map degrees_arctan (out_youngs_modulus r)"
    and t: "tangent_modulus (out_stress r) (out_strain r) = Inr (loc_tangent_modulus_arr r)"
    and f: "fracture_search (out_stress r) (loc_tangent_modulus_arr r) (loc_E r)
            = Inr (loc_peak_idx r, loc_fracture_idx r)"
    and p: "point_at (out_strain r) (out_stress r) (out_slope_angles r) (loc_fracture_idx r)
            = Inr (out_fracture_point r)"
    by blast
  have len: "length (out_stress r) = length (out_strain r)"
    using align_lengths[of dcells lcells] by (simp add: s e d l stress_of_def strain_of_def)
  have lena: "length (out_slope_angles r) = length (out_strain r)"
    by (simp add: a y youngs_modulus_def len)
  have lent: "length (loc_tangent_modulus_arr r) = length (out_stress r)"
    by (rule length_tangent_modulus[OF t])
  from fracture_search_range[OF f lent] obtain k where
    k: "np_argmax (out_stress r) = Inr k" "loc_peak_idx r = int k"
       "loc_peak_idx r \<le> loc_fracture_idx r"
       "loc_fracture_idx r \<le> int (length (out_stress r)) - 1"
    by blast
  have ne: "out_stress r \<noteq> []" using k(1) by (cases "out_stress r") auto
  from np_argmax_spec[OF ne] k(1)
  have mx: "\<forall>s \<in> set (out_stress r). s \<le> out_stress r ! k" by auto
  have rng: "0 \<le> loc_fracture_idx r" "loc_fracture_idx r < int (length (out_strain r))"
    using k len by simp_all
  have fp: "out_fracture_point r
           = \<lparr>pt_strain = out_strain r ! nat (loc_fracture_idx r),
               pt_stress = out_stress r ! nat (loc_fracture_idx r),
               pt_slope_angle = out_slope_angles r ! nat (loc_fracture_idx r)\<rparr>"
    using point_at_in_range[OF rng len lena] p by simp
  show ?thesis using k mx fp by simp
qed

theorem fracture_index_in_range_witness:
  "(case analyze (Some (Detected ''displacement'' ''load''
            [Some 0, Some 1, Some 2, Some 4, Some 6, Some 7]
            [Some 0, Some 100, Some 200, Some 300, Some 250, Some 260])) (3 / 10000) (1 / 20) of
      Ok r \<Rightarrow> out_stress r = [0, 1 / 3, 2 / 3, 1, 5 / 6, 13 / 15]
             \<and> 0 \<le> loc_peak_idx r
             \<and> loc_peak_idx r \<le> loc_fracture_idx r
             \<and> loc_fracture_idx r \<le> int (length (out_stress r)) - 1
             \<and> np_argmax (out_stress r) = Inr (nat (loc_peak_idx r))
    | Error code msg \<Rightarrow> False)"
proof -
  obtain r where r: "analyze (Some (Detected ''displacement'' ''load''
            [Some 0, Some 1, Some 2, Some 4, Some 6, Some 7]
            [Some 0, Some 100, Some 200, Some 300, Some 250, Some 260])) (3 / 10000) (1 / 20) = Ok r"
      and s: "out_stress r = [0, 1 / 3, 2 / 3, 1, 5 / 6, 13 / 15]"
    by (simp add: eval_defs)
  from fracture_index_in_range[OF r] have
    "0 \<le> loc_peak_idx r \<and> loc_peak_idx r \<le> loc_fracture_idx r
       \<and> loc_fracture_idx r \<le> int (length (out_stress r)) - 1
       \<and> np_argmax (out_stress r) = Inr (nat (loc_peak_idx r))"
    by blast
  then show ?thesis using s by (simp only: r response.case)
qed

text \<open>
  C10 as stated does not hold in doubles. Two loads one unit in the last place apart,
  100 and \<open>100 + 2^-46\<close>: with area 0.003 (the double \<open>3458764513820541 / 2^60\<close>) both
  quotients round to the same stress and the peak index is 0; with area 1 the two
  stresses differ and the peak index is 1, the first index of the maximum of load.
  Loads 1 and 2 with area \<open>1e-320\<close>: both quotients overflow to infinity and the peak
  index is 0.
\<close>

theorem peak_index_depends_on_area:
  "np_argmax [100, 100 + 1 / 2 ^ 46] = Inr 1
   \<and> stress_mpa_double [100, 100 + 1 / 2 ^ 46] (3458764513820541 / 2 ^ 60)
       = [Fin (4803839602528529 / 2 ^ 57), Fin (4803839602528529 / 2 ^ 57)]
   \<and> np_argmax_fl (stress_mpa_double [100, 100 + 1 / 2 ^ 46] (3458764513820541 / 2 ^ 60)) = Inr 0
   \<and> stress_mpa_double [100, 100 + 1 / 2 ^ 46] 1
       = [Fin (7378697629483821 / 2 ^ 66), Fin (7378697629483822 / 2 ^ 66)]
   \<and> np_argmax_fl (stress_mpa_double [100, 100 + 1 / 2 ^ 46] 1) = Inr 1
   \<and> np_argmax [1, 2] = Inr 1
   \<and> stress_mpa_double [1, 2] (2024 / 2 ^ 1074) = [PInf, PInf]
   \<and> np_argmax_fl (stress_mpa_double [1, 2] (2024 / 2 ^ 1074)) = Inr 0"
  unfolding stress_double_small_area stress_double_unit_area stress_double_overflow by simp

text \<open>
  C10, as the program has it. For a positive area and a non-empty load column,
  stress is load divided by area and then by \<open>1e6\<close>, each quotient rounded to a double;
  it has no NaN and is a non-decreasing, not a strictly increasing, function of load.
  The peak index \<open>k\<close> of line 143 is the first index of the maximum of stress. With
  \<open>kl\<close> the first index of the maximum of load: the stress at \<open>k\<close> is the stress at \<open>kl\<close>,
  \<open>k\<close> is at most \<open>kl\<close>, and \<open>k\<close> is \<open>kl\<close> when no sample before \<open>kl\<close> has the stress of \<open>kl\<close>.
\<close>

theorem peak_index_under_rounding:
  assumes "0 < area" "load \<noteq> []"
  shows "\<exists>k kl. np_argmax_fl (stress_mpa_double load area) = Inr k \<and> np_argmax load = Inr kl
          \<and> k < length load \<and> kl < length load
          \<and> (\<forall>l\<in>set load. l \<le> load ! kl) \<and> (\<forall>j<kl. load ! j < load ! kl)
          \<and> (\<forall>i<length load. \<forall>j<length load. load ! i \<le> load ! j \<longrightarrow>
                fle (stress_mpa_double load area ! i) (stress_mpa_double load area ! j))
          \<and> (\<forall>j<length load. fle (stress_mpa_double load area ! j) (stress_mpa_double load area ! k))
          \<and> (\<forall>j<k. flt (stress_mpa_double load area ! j) (stress_mpa_double load area ! k))
          \<and> stress_mpa_double load area ! k = stress_mpa_double load area ! kl
          \<and> k \<le> kl
          \<and> ((\<forall>j<kl. stress_mpa_double load area ! j \<noteq> stress_mpa_double load area ! kl)
                \<longrightarrow> k = kl)"
proof -
  define s where "s = stress_mpa_double load area"
  have ls: "length s = length load" by (simp add: s_def stress_mpa_double_def)
  have sne: "s \<noteq> []" using assms(2) ls by auto
  have nn: "NaN \<notin> set s" unfolding s_def by (rule stress_mpa_double_not_NaN)
  from np_argmax_spec[OF assms(2)] obtain kl where
    kl: "np_argmax load = Inr kl" "kl < length load" "\<forall>l\<in>set load. l \<le> load ! kl"
        "\<forall>j<kl. load ! j < load ! kl"
    by blast
  from np_argmax_fl_spec[OF sne nn] obtain k where
    k: "np_argmax_fl s = Inr k" "k < length s" "\<forall>z\<in>set s. fle z (s ! k)"
       "\<forall>j<k. flt (s ! j) (s ! k)"
    by blast
  have mono: "\<forall>i<length load. \<forall>j<length load. load ! i \<le> load ! j \<longrightarrow> fle (s ! i) (s ! j)"
    unfolding s_def using stress_mpa_double_mono[OF assms(1)] by blast
  have mx: "\<forall>j<length load. fle (s ! j) (s ! k)" using k(3) ls by simp
  have kk: "k < length load" using k(2) ls by simp
  have "load ! k \<le> load ! kl" using kl(3) kk by simp
  then have "fle (s ! k) (s ! kl)" using mono kk kl(2) by blast
  moreover have "fle (s ! kl) (s ! k)" using mx kl(2) by blast
  ultimately have eq: "s ! k = s ! kl" by (rule fle_antisym)
  have le: "k \<le> kl"
  proof (rule ccontr)
    assume "\<not> k \<le> kl"
    then have "flt (s ! kl) (s ! k)" using k(4) by simp
    then show False using eq flt_irrefl by simp
  qed
  have inj: "(\<forall>j<kl. s ! j \<noteq> s ! kl) \<longrightarrow> k = kl" using eq le by (metis le_neq_implies_less)
  show ?thesis
    unfolding s_def[symmetric]
    using k(1) kl(1) kk kl(2,3,4) mono mx k(4) eq le inj by blast
qed

theorem peak_index_under_rounding_witness:
  "(0::real) < 1 \<and> [100, 100 + 1 / 2 ^ 46 :: real] \<noteq> []
   \<and> stress_mpa_double [100, 100 + 1 / 2 ^ 46] 1 ! 0
       \<noteq> stress_mpa_double [100, 100 + 1 / 2 ^ 46] 1 ! 1
   \<and> np_argmax [100, 100 + 1 / 2 ^ 46] = Inr 1
   \<and> np_argmax_fl (stress_mpa_double [100, 100 + 1 / 2 ^ 46] 1) = Inr 1"
proof -
  have h: "(0::real) < 1" "[100, 100 + 1 / 2 ^ 46 :: real] \<noteq> []" by simp_all
  have a: "np_argmax [100, 100 + 1 / 2 ^ 46] = Inr 1" by simp
  have p: "\<forall>j<1. stress_mpa_double [100, 100 + 1 / 2 ^ 46] 1 ! j
               \<noteq> stress_mpa_double [100, 100 + 1 / 2 ^ 46] 1 ! 1"
    unfolding stress_double_unit_area by simp
  from peak_index_under_rounding[OF h] obtain k kl where
    k: "np_argmax_fl (stress_mpa_double [100, 100 + 1 / 2 ^ 46] 1) = Inr k"
    and kl: "np_argmax [100, 100 + 1 / 2 ^ 46] = Inr kl"
    and e: "(\<forall>j<kl. stress_mpa_double [100, 100 + 1 / 2 ^ 46] 1 ! j
                 \<noteq> stress_mpa_double [100, 100 + 1 / 2 ^ 46] 1 ! kl) \<longrightarrow> k = kl"
    by blast
  have "kl = 1" using kl unfolding a by simp
  then have "k = 1" using e p by simp
  moreover have "stress_mpa_double [100, 100 + 1 / 2 ^ 46] 1 ! 0
       \<noteq> stress_mpa_double [100, 100 + 1 / 2 ^ 46] 1 ! 1"
    using p by simp
  ultimately show ?thesis using h a k by simp
qed

text \<open>
  C4, as the program has it. When the elastic-candidate region is empty, \<open>E\<close> is 1.0 if
  there are at most 5 samples; with more than 5 samples \<open>E\<close> is \<open>np.max\<close> of the tangent
  modulus over the first \<open>max(5, n div 5)\<close> samples: NaN if a NaN is among them,
  otherwise one of them that none exceeds. The fallback never raises: for any mask
  without a true entry and a tangent array of the stated length it returns a value.
\<close>

theorem fallback_modulus:
  assumes "analyze file area gauge_length = Ok r"
    and "elastic_region (out_stress r) (out_strain r) = []"
  shows "(length (out_strain r) \<le> 5 \<longrightarrow> loc_E r = Fin 1)
       \<and> (5 < length (out_strain r) \<longrightarrow>
            (let w = take (max 5 (length (out_strain r) div 5)) (loc_tangent_modulus_arr r)
             in w \<noteq> [] \<and> np_max_fl w = Inr (loc_E r)
                \<and> (NaN \<in> set w \<longrightarrow> loc_E r = NaN)
                \<and> (NaN \<notin> set w \<longrightarrow> loc_E r \<in> set w \<and> (\<forall>v\<in>set w. fle v (loc_E r)))))
       \<and> (\<forall>tangent msk n. \<not> list_ex id msk \<and> length tangent = n
             \<longrightarrow> (\<exists>E. scalar_modulus tangent msk n = Inr E))"
proof -
  from analyze_Ok[OF assms(1)] obtain dc lc dcells lcells where
    run: "run_analysis dc lc dcells lcells area gauge_length = Inr r" by blast
  from run_analysis_Inr[OF run] obtain maxs maxe where
        d: "out_displacement r = fst (align dcells lcells)"
    and l: "out_load r = snd (align dcells lcells)"
    and s: "out_stress r = stress_of (out_load r) area"
    and e: "out_strain r = strain_of (out_displacement r) gauge_length"
    and t: "tangent_modulus (out_stress r) (out_strain r) = Inr (loc_tangent_modulus_arr r)"
    and ms: "np_max (out_stress r) = Inr maxs"
    and me: "np_max (out_strain r) = Inr maxe"
    and sm: "scalar_modulus (loc_tangent_modulus_arr r)
               (elastic_mask (out_stress r) (out_strain r) maxs maxe)
               (length (out_strain r)) = Inr (loc_E r)"
    by blast
  have len: "length (out_stress r) = length (out_strain r)"
    using align_lengths[of dcells lcells] by (simp add: s e d l stress_of_def strain_of_def)
  have lent: "length (loc_tangent_modulus_arr r) = length (out_strain r)"
    using length_tangent_modulus[OF t] len by simp
  have mx: "maxs = Max (set (out_stress r))" "maxe = Max (set (out_strain r))"
    using np_max_Inr[OF ms] np_max_Inr[OF me] by simp_all
  have nomask: "\<not> list_ex id (elastic_mask (out_stress r) (out_strain r) maxs maxe)"
    unfolding mx using elastic_mask_region[OF len] assms(2) by simp
  note fb = scalar_modulus_fallback[OF nomask lent]
  have small: "length (out_strain r) \<le> 5 \<longrightarrow> loc_E r = Fin 1"
    using fb sm by auto
  have big: "5 < length (out_strain r) \<longrightarrow>
            (let w = take (max 5 (length (out_strain r) div 5)) (loc_tangent_modulus_arr r)
             in w \<noteq> [] \<and> np_max_fl w = Inr (loc_E r)
                \<and> (NaN \<in> set w \<longrightarrow> loc_E r = NaN)
                \<and> (NaN \<notin> set w \<longrightarrow> loc_E r \<in> set w \<and> (\<forall>v\<in>set w. fle v (loc_E r))))"
  proof
    assume n: "5 < length (out_strain r)"
    define w where "w = take (max 5 (length (out_strain r) div 5)) (loc_tangent_modulus_arr r)"
    have ne: "w \<noteq> []" and eq: "np_max_fl w = Inr (loc_E r)"
      using fb n sm by (simp_all add: w_def)
    from np_max_fl_spec[OF ne] eq
    have "(NaN \<in> set w \<longrightarrow> loc_E r = NaN)
        \<and> (NaN \<notin> set w \<longrightarrow> loc_E r \<in> set w \<and> (\<forall>v\<in>set w. fle v (loc_E r)))"
      by auto
    then show "(let w = take (max 5 (length (out_strain r) div 5)) (loc_tangent_modulus_arr r)
             in w \<noteq> [] \<and> np_max_fl w = Inr (loc_E r)
                \<and> (NaN \<in> set w \<longrightarrow> loc_E r = NaN)
                \<and> (NaN \<notin> set w \<longrightarrow> loc_E r \<in> set w \<and> (\<forall>v\<in>set w. fle v (loc_E r))))"
      using ne eq unfolding Let_def w_def by blast
  qed
  have never: "\<forall>tangent msk n. \<not> list_ex id msk \<and> length tangent = n
             \<longrightarrow> (\<exists>E. scalar_modulus tangent msk n = Inr E)"
  proof (intro allI impI)
    fix tangent :: "fl list" and msk n
    assume h: "\<not> list_ex id msk \<and> length tangent = n"
    then have f: "(n \<le> 5 \<longrightarrow> scalar_modulus tangent msk n = Inr (Fin 1))
       \<and> (5 < n \<longrightarrow> take (max 5 (n div 5)) tangent \<noteq> []
              \<and> scalar_modulus tangent msk n = np_max_fl (take (max 5 (n div 5)) tangent))"
      using scalar_modulus_fallback by blast
    show "\<exists>E. scalar_modulus tangent msk n = Inr E"
    proof (cases "n \<le> 5")
      case True
      then show ?thesis using f by simp
    next
      case False
      then have "take (max 5 (n div 5)) tangent \<noteq> []" using f by simp
      from np_max_fl_spec[OF this] show ?thesis using f False by auto
    qed
  qed
  show ?thesis using small big never by blast
qed

theorem fallback_modulus_witness:
  "(case analyze (Some (Detected ''displacement'' ''load''
            [Some 0, Some 1, Some 2, Some 3, Some 4, Some 5]
            [Some 0, Some 0, Some 0, Some 0, Some 300, Some 300])) (3 / 1000) 1 of
      Ok r \<Rightarrow> elastic_region (out_stress r) (out_strain r) = []
             \<and> length (out_strain r) = 6
             \<and> loc_tangent_modulus_arr r = [Fin 0, Fin 0, Fin 0, Fin 50, Fin 50, Fin 0]
             \<and> np_max_fl (take 5 (loc_tangent_modulus_arr r)) = Inr (loc_E r)
             \<and> loc_E r = Fin 50
    | Error code msg \<Rightarrow> False)"
proof -
  obtain r where r: "analyze (Some (Detected ''displacement'' ''load''
            [Some 0, Some 1, Some 2, Some 3, Some 4, Some 5]
            [Some 0, Some 0, Some 0, Some 0, Some 300, Some 300])) (3 / 1000) 1 = Ok r"
      and s: "out_stress r = [0, 0, 0, 0, 1 / 10, 1 / 10]"
      and e: "out_strain r = [0, 1 / 1000, 2 / 1000, 3 / 1000, 4 / 1000, 5 / 1000]"
      and t: "loc_tangent_modulus_arr r = [Fin 0, Fin 0, Fin 0, Fin 50, Fin 50, Fin 0]"
    by (simp add: eval_defs)
  have reg: "elastic_region (out_stress r) (out_strain r) = []"
    unfolding s e by (simp add: elastic_region_def upt_rec)
  from fallback_modulus[OF r reg] have
    "np_max_fl (take 5 (loc_tangent_modulus_arr r)) = Inr (loc_E r)"
    by (simp add: e Let_def)
  moreover from this have "loc_E r = Fin 50" by (simp add: t fmax_def)
  ultimately show ?thesis using reg e t by (simp only: r response.case) simp
qed

text \<open>
  C4 as stated puts the bound at fewer than 5 samples. With exactly 5 samples and an
  empty region the maximum of the first five tangent values is 50, and \<open>E\<close> is 1.0.
\<close>

theorem fallback_at_five_samples:
  "(case analyze (Some (Detected ''displacement'' ''load''
            [Some 0, Some 1, Some 2, Some 3, Some 4]
            [Some 0, Some 0, Some 0, Some 300, Some 300])) (3 / 1000) 1 of
      Ok r \<Rightarrow> elastic_region (out_stress r) (out_strain r) = []
             \<and> length (out_strain r) = 5
             \<and> np_max_fl (take (fallback_window 5) (loc_tangent_modulus_arr r)) = Inr (Fin 50)
             \<and> loc_E r = Fin 1
    | Error code msg \<Rightarrow> False)"
  by (simp add: eval_defs elastic_region_def upt_rec)

text \<open>
  C5, as the program has it. Whenever a yield index \<open>y\<close> is reported, index \<open>y + 1\<close>
  exists, the sample there has a strain above 0.002 and lies strictly below the offset
  line \<open>E * (strain - 0.002)\<close>, and every sample up to \<open>y\<close> either has a strain of at
  most 0.002 or does not lie below the offset line (for a finite \<open>E\<close>: it lies on or
  above it).
\<close>

theorem yield_bracket:
  assumes "analyze file area gauge_length = Ok r"
    and "out_yield_index r = Some y"
  shows "- 1 \<le> y \<and> y + 1 < int (length (out_strain r))
       \<and> out_strain r ! nat (y + 1) > 0.002
       \<and> flt (Fin (out_stress r ! nat (y + 1)))
              (fmul (loc_E r) (Fin (out_strain r ! nat (y + 1) - 0.002)))
       \<and> (\<forall>j. int j \<le> y \<longrightarrow>
              out_strain r ! j \<le> 0.002
            \<or> \<not> flt (Fin (out_stress r ! j)) (fmul (loc_E r) (Fin (out_strain r ! j - 0.002))))
       \<and> (\<forall>e. loc_E r = Fin e \<longrightarrow>
              out_stress r ! nat (y + 1) < e * (out_strain r ! nat (y + 1) - 0.002)
            \<and> (0 \<le> y \<longrightarrow> out_strain r ! nat y \<le> 0.002
                          \<or> out_stress r ! nat y \<ge> e * (out_strain r ! nat y - 0.002)))"
proof -
  from analyze_Ok[OF assms(1)] obtain dc lc dcells lcells where
    run: "run_analysis dc lc dcells lcells area gauge_length = Inr r" by blast
  from run_analysis_Inr[OF run] have
    yi: "out_yield_index r = yield_scan 0 (out_strain r) (out_stress r)
                               (offset_stress_of (loc_E r) (out_strain r))"
    by blast
  from yield_scan_Some[OF yi[unfolded assms(2), symmetric]] obtain k where
    k: "y = int (0 + k) - 1" "k < length (out_strain r)"
       "out_strain r ! k > 0.002"
       "flt (Fin (out_stress r ! k)) (offset_stress_of (loc_E r) (out_strain r) ! k)"
       "\<forall>j<k. \<not> (out_strain r ! j > 0.002
               \<and> flt (Fin (out_stress r ! j)) (offset_stress_of (loc_E r) (out_strain r) ! j))"
    by blast
  have off: "offset_stress_of (loc_E r) (out_strain r) ! j
             = fmul (loc_E r) (Fin (out_strain r ! j - 0.002))" if "j < length (out_strain r)" for j
    using that by (simp add: offset_stress_of_def)
  have ky: "nat (y + 1) = k" "- 1 \<le> y" "y + 1 < int (length (out_strain r))"
    using k(1,2) by simp_all
  have a: "out_strain r ! nat (y + 1) > 0.002"
       "flt (Fin (out_stress r ! nat (y + 1)))
              (fmul (loc_E r) (Fin (out_strain r ! nat (y + 1) - 0.002)))"
    using k(3,4) off[OF k(2)] ky(1) by simp_all
  have b: "\<forall>j. int j \<le> y \<longrightarrow>
              out_strain r ! j \<le> 0.002
            \<or> \<not> flt (Fin (out_stress r ! j)) (fmul (loc_E r) (Fin (out_strain r ! j - 0.002)))"
  proof (intro allI impI)
    fix j assume "int j \<le> y"
    then have jk: "j < k" using k(1) by simp
    then have "j < length (out_strain r)" using k(2) by simp
    from off[OF this] k(5) jk
    show "out_strain r ! j \<le> 0.002
            \<or> \<not> flt (Fin (out_stress r ! j)) (fmul (loc_E r) (Fin (out_strain r ! j - 0.002)))"
      by (metis not_le_imp_less)
  qed
  have c: "\<forall>e. loc_E r = Fin e \<longrightarrow>
              out_stress r ! nat (y + 1) < e * (out_strain r ! nat (y + 1) - 0.002)
            \<and> (0 \<le> y \<longrightarrow> out_strain r ! nat y \<le> 0.002
                          \<or> out_stress r ! nat y \<ge> e * (out_strain r ! nat y - 0.002))"
  proof (intro allI impI conjI)
    fix e assume e: "loc_E r = Fin e"
    show "out_stress r ! nat (y + 1) < e * (out_strain r ! nat (y + 1) - 0.002)"
      using a(2) by (simp add: e)
    assume "0 \<le> y"
    then have "int (nat y) \<le> y" by simp
    with b have "out_strain r ! nat y \<le> 0.002
            \<or> \<not> flt (Fin (out_stress r ! nat y)) (fmul (loc_E r) (Fin (out_strain r ! nat y - 0.002)))"
      by blast
    then show "out_strain r ! nat y \<le> 0.002
                          \<or> out_stress r ! nat y \<ge> e * (out_strain r ! nat y - 0.002)"
      by (auto simp: e)
  qed
  show ?thesis using ky(2,3) a b c by blast
qed

theorem yield_bracket_witness:
  "(case analyze (Some (Detected ''displacement'' ''load''
            [Some 0, Some 1, Some 2, Some 4, Some 6, Some 7]
            [Some 0, Some 100, Some 200, Some 300, Some 250, Some 260])) (3 / 10000) (1 / 20) of
      Ok r \<Rightarrow> out_yield_index r = Some 2
             \<and> loc_E r = Fin (50 / 3)
             \<and> out_strain r ! 3 > 0.002
             \<and> out_stress r ! 3 < 50 / 3 * (out_strain r ! 3 - 0.002)
             \<and> (out_strain r ! 2 \<le> 0.002
                  \<or> out_stress r ! 2 \<ge> 50 / 3 * (out_strain r ! 2 - 0.002))
    | Error code msg \<Rightarrow> False)"
proof -
  obtain r where r: "analyze (Some (Detected ''displacement'' ''load''
            [Some 0, Some 1, Some 2, Some 4, Some 6, Some 7]
            [Some 0, Some 100, Some 200, Some 300, Some 250, Some 260])) (3 / 10000) (1 / 20) = Ok r"
      and y: "out_yield_index r = Some 2" and e: "loc_E r = Fin (50 / 3)"
    by (simp add: eval_defs)
  from yield_bracket[OF r y] have
    "out_strain r ! nat (2 + 1) > 0.002"
    and c: "\<forall>e. loc_E r = Fin e \<longrightarrow>
              out_stress r ! nat (2 + 1) < e * (out_strain r ! nat (2 + 1) - 0.002)
            \<and> ((0::int) \<le> 2 \<longrightarrow> out_strain r ! nat 2 \<le> 0.002
                          \<or> out_stress r ! nat 2 \<ge> e * (out_strain r ! nat 2 - 0.002))"
    by blast+
  moreover from c[rule_format, OF e] have
    "out_stress r ! nat (2 + 1) < 50 / 3 * (out_strain r ! nat (2 + 1) - 0.002)
     \<and> (out_strain r ! nat 2 \<le> 0.002
          \<or> out_stress r ! nat 2 \<ge> 50 / 3 * (out_strain r ! nat 2 - 0.002))"
    by simp
  moreover have "nat (2 + 1) = 3" "nat 2 = 2" by simp_all
  ultimately have
    "out_strain r ! 3 > 0.002
     \<and> out_stress r ! 3 < 50 / 3 * (out_strain r ! 3 - 0.002)
     \<and> (out_strain r ! 2 \<le> 0.002
          \<or> out_stress r ! 2 \<ge> 50 / 3 * (out_strain r ! 2 - 0.002))"
    by (simp only:)
  then show ?thesis using y e by (simp only: r response.case)
qed

text \<open>
  C5 as stated puts the sample at the yield index on or above the offset line. With a
  negative first load reading (displacement 0 and 10 mm, load -300 and 0 N) the yield
  index is 0, and the sample at index 0, whose strain is not above 0.002, lies below
  the line.
\<close>

theorem yield_sample_below_offset_line:
  "(case analyze (Some (Detected ''displacement'' ''load'' [Some 0, Some 10] [Some (- 300), Some 0]))
           (3 / 1000) 1 of
      Ok r \<Rightarrow> out_yield_index r = Some 0
             \<and> loc_E r = Fin 1
             \<and> out_strain r = [0, 1 / 100] \<and> out_stress r = [- (1 / 10), 0]
             \<and> out_stress r ! 0 < 1 * (out_strain r ! 0 - 0.002)
    | Error code msg \<Rightarrow> False)"
  by (simp add: eval_defs)

text \<open>
  C3. When the elastic-candidate region is not empty, \<open>E\<close> is the mean (\<open>np.mean\<close>) of
  the tangent-modulus values at the region's indices that are at or above the 90th
  percentile (\<open>np.percentile\<close>, linear interpolation) of the tangent-modulus values at
  the region's indices. When these values are all finite, the percentile is finite,
  at least one value is at or above it, and \<open>E\<close> is their sum divided by their number.
\<close>

theorem modulus_from_top_decile:
  assumes "analyze file area gauge_length = Ok r"
    and "elastic_region (out_stress r) (out_strain r) \<noteq> []"
  shows "(let vals = map (nth (loc_tangent_modulus_arr r))
                       (elastic_region (out_stress r) (out_strain r));
              threshold = np_percentile vals 90;
              top = filter (\<lambda>v. fge v threshold) vals
          in loc_E r = np_mean top
           \<and> (list_all is_fin vals \<longrightarrow>
                 is_fin threshold \<and> top \<noteq> []
               \<and> loc_E r = Fin (sum_list (map fl_val top) / real (length top))))"
proof -
  define vals where "vals = map (nth (loc_tangent_modulus_arr r))
                       (elastic_region (out_stress r) (out_strain r))"
  define threshold where "threshold = np_percentile vals 90"
  define top where "top = filter (\<lambda>v. fge v threshold) vals"
  from analyze_Ok[OF assms(1)] obtain dc lc dcells lcells where
    run: "run_analysis dc lc dcells lcells area gauge_length = Inr r" by blast
  from run_analysis_Inr[OF run] obtain maxs maxe where
        d: "out_displacement r = fst (align dcells lcells)"
    and l: "out_load r = snd (align dcells lcells)"
    and s: "out_stress r = stress_of (out_load r) area"
    and e: "out_strain r = strain_of (out_displacement r) gauge_length"
    and t: "tangent_modulus (out_stress r) (out_strain r) = Inr (loc_tangent_modulus_arr r)"
    and ms: "np_max (out_stress r) = Inr maxs"
    and me: "np_max (out_strain r) = Inr maxe"
    and sm: "scalar_modulus (loc_tangent_modulus_arr r)
               (elastic_mask (out_stress r) (out_strain r) maxs maxe)
               (length (out_strain r)) = Inr (loc_E r)"
    by blast
  have len: "length (out_stress r) = length (out_strain r)"
    using align_lengths[of dcells lcells] by (simp add: s e d l stress_of_def strain_of_def)
  have lent: "length (loc_tangent_modulus_arr r) = length (out_stress r)"
    by (rule length_tangent_modulus[OF t])
  have mx: "maxs = Max (set (out_stress r))" "maxe = Max (set (out_strain r))"
    using np_max_Inr[OF ms] np_max_Inr[OF me] by simp_all
  have hasmask: "list_ex id (elastic_mask (out_stress r) (out_strain r) maxs maxe)"
    unfolding mx using elastic_mask_region[OF len] assms(2) by simp
  have bi: "bool_index (loc_tangent_modulus_arr r)
              (elastic_mask (out_stress r) (out_strain r) maxs maxe) = vals"
    unfolding mx vals_def by (rule bool_index_region[OF len lent])
  have E: "loc_E r = np_mean top"
    using sm hasmask by (simp add: scalar_modulus_def Let_def bi top_def threshold_def)
  have fin: "is_fin threshold \<and> top \<noteq> []
               \<and> loc_E r = Fin (sum_list (map fl_val top) / real (length top))"
    if allfin: "list_all is_fin vals"
  proof -
    have v: "vals = map Fin (map fl_val vals)" by (rule fin_list[OF allfin])
    have ne: "map fl_val vals \<noteq> []" using assms(2) by (simp add: vals_def)
    from np_percentile_Fin[OF ne] obtain p x where
      p: "np_percentile (map Fin (map fl_val vals)) 90 = Fin p"
      and x: "x \<in> set (map fl_val vals)" "p \<le> x"
      by blast
    have thr: "threshold = Fin p" unfolding threshold_def using p v by simp
    have "Fin x \<in> set vals" using x(1) v by (metis image_eqI list.set_map)
    moreover have "fge (Fin x) threshold" using x(2) by (simp add: thr fge_def)
    ultimately have "Fin x \<in> set top" by (simp add: top_def)
    then have tne: "top \<noteq> []" by auto
    have "list_all is_fin top" using allfin by (simp add: top_def list_all_iff)
    then have tv: "top = map Fin (map fl_val top)" by (rule fin_list)
    have mne: "map fl_val top \<noteq> []" using tne by simp
    have "np_mean top = Fin (sum_list (map fl_val top) / real (length (map fl_val top)))"
      by (subst tv) (rule np_mean_Fin[OF mne])
    then show ?thesis using thr tne E by simp
  qed
  show ?thesis
    unfolding Let_def vals_def[symmetric] threshold_def[symmetric] top_def[symmetric]
    using E fin by blast
qed

theorem modulus_from_top_decile_witness:
  "(case analyze (Some (Detected ''displacement'' ''load''
            [Some 0, Some 1, Some 2, Some 4, Some 6, Some 7]
            [Some 0, Some 100, Some 200, Some 300, Some 250, Some 260])) (3 / 10000) (1 / 20) of
      Ok r \<Rightarrow> elastic_region (out_stress r) (out_strain r) = [1, 2]
             \<and> map (nth (loc_tangent_modulus_arr r)) [1, 2] = [Fin (50 / 3), Fin (125 / 9)]
             \<and> np_percentile [Fin (50 / 3), Fin (125 / 9)] 90 = Fin (295 / 18)
             \<and> loc_E r = np_mean [Fin (50 / 3)]
             \<and> loc_E r = Fin (50 / 3)
    | Error code msg \<Rightarrow> False)"
proof -
  obtain r where r: "analyze (Some (Detected ''displacement'' ''load''
            [Some 0, Some 1, Some 2, Some 4, Some 6, Some 7]
            [Some 0, Some 100, Some 200, Some 300, Some 250, Some 260])) (3 / 10000) (1 / 20) = Ok r"
      and s: "out_stress r = [0, 1 / 3, 2 / 3, 1, 5 / 6, 13 / 15]"
      and e: "out_strain r = [0, 1 / 50, 1 / 25, 2 / 25, 3 / 25, 7 / 50]"
      and t: "loc_tangent_modulus_arr r
              = [Fin (50 / 3), Fin (50 / 3), Fin (125 / 9), Fin (25 / 12), Fin (- (5 / 18)), Fin (5 / 3)]"
    by (simp add: eval_defs)
  have reg: "elastic_region (out_stress r) (out_strain r) = [1, 2]"
    unfolding s e by (simp add: elastic_region_def upt_rec)
  have ne: "elastic_region (out_stress r) (out_strain r) \<noteq> []" by (simp add: reg)
  have vals: "map (nth (loc_tangent_modulus_arr r)) [1, 2] = [Fin (50 / 3), Fin (125 / 9)]"
    by (simp add: t)
  have thr: "np_percentile [Fin (50 / 3), Fin (125 / 9)] 90 = Fin (295 / 18)"
    by (simp add: np_percentile_def fl_sort_def lerp_def fsub_def Let_def)
  from modulus_from_top_decile[OF r ne]
  have "loc_E r = np_mean [Fin (50 / 3)]"
    unfolding Let_def reg vals thr by (simp add: fge_def)
  moreover from this have "loc_E r = Fin (50 / 3)" by (simp add: np_mean_def rdiv_def)
  ultimately show ?thesis using reg vals thr by (simp only: r response.case)
qed

end
